theory Spec2Isabelle
  imports Main "HOL-Library.Sublist"
begin

section \<open>The browser session of chrome.go\<close>

subsection \<open>Outcomes of a call\<close>

text \<open>
  A Go call of the session returns, panics, or blocks for ever on the session's
  \<open>sync.RWMutex\<close>. The mutex is not reentrant: \<open>Lock\<close> waits until no reader holds it,
  so a goroutine that calls \<open>Lock\<close> while it holds \<open>RLock\<close> itself never proceeds.
\<close>

datatype go_panic = CloseOfClosedChannel | MustWaitLoadFailed | MustLaunchFailed
  | MustConnectFailed | MustPageFailed | MustSetWindowFailed

datatype 'a outcome = Return 'a | Panic go_panic | Blocked

fun andThen :: "'a outcome \<Rightarrow> ('a \<Rightarrow> 'b outcome) \<Rightarrow> 'b outcome" where
  "andThen (Return x) f = f x"
| "andThen (Panic p) f = Panic p"
| "andThen Blocked f = Blocked"

subsection \<open>The driver boundary\<close>

text \<open>
  The rod driver is an external collaborator. Each call of the session receives the
  answers the driver gives during that call: \<open>page.Element(selector)\<close>,
  \<open>el.Property("value")\<close> followed by \<open>Str()\<close>, \<open>el.Input(value)\<close>,
  \<open>page.Navigate(url)\<close>, the wait of \<open>page.MustWaitLoad()\<close> and \<open>page.Cookies(urls)\<close>.
  A call of the driver is taken to answer, with an error or a value. The browser and the
  page are made on the session's context (\<open>rod.New().Context(ctx)\<close>): once \<open>Destroy\<close>
  has cancelled it, the driver answers with an error.
\<close>

datatype rod_error = ElementNotFound | PropertyFailed | InputFailed | NavigateFailed
  | WaitLoadFailed | CookiesFailed | ContextCanceled

record element =
  el_Property_value :: "rod_error + string"
  el_Input :: "string \<Rightarrow> rod_error option"

record cookie =
  ck_Name :: string
  ck_Value :: string
  ck_Domain :: string

record page =
  pg_Element :: "string \<Rightarrow> rod_error + element"
  pg_Navigate :: "string \<Rightarrow> rod_error option"
  pg_WaitLoad :: "rod_error option"
  pg_Cookies :: "string list \<Rightarrow> rod_error + cookie list"

subsection \<open>The session state\<close>

text \<open>
  \<open>chromeWebView\<close>: the two Go maps are partial functions; the mutex is its reader count
  and writer flag; \<open>ctx\<close> and \<open>stopChan\<close> are the two facts the code reads of them (cancelled,
  closed); \<open>c_tmpDir\<close> is the field \<open>tmpDir\<close>, a path given by its components.
  \<open>pollers\<close> records the goroutines started by \<open>go c.pollElementValue(id)\<close> and
  \<open>slog\<close> the messages written through \<open>log/slog\<close>.
\<close>

record chromeWebView =
  elements :: "string \<rightharpoonup> string"
  listeners :: "string \<rightharpoonup> bool"
  mu_readers :: nat
  mu_writer :: bool
  ctx_done :: bool
  stopChan_closed :: bool
  page_closed :: bool
  browser_closed :: bool
  c_tmpDir :: "string list"
  pollers :: "string list"
  slog :: "string list"

definition mu_free :: "chromeWebView \<Rightarrow> bool" where
  "mu_free c \<longleftrightarrow> mu_readers c = 0 \<and> \<not> mu_writer c"

definition mu_Lock :: "chromeWebView \<Rightarrow> chromeWebView outcome" where
  "mu_Lock c = (if mu_readers c = 0 \<and> \<not> mu_writer c
                then Return (c\<lparr>mu_writer := True\<rparr>) else Blocked)"

definition mu_Unlock :: "chromeWebView \<Rightarrow> chromeWebView" where
  "mu_Unlock c = c\<lparr>mu_writer := False\<rparr>"

definition mu_RLock :: "chromeWebView \<Rightarrow> chromeWebView outcome" where
  "mu_RLock c = (if \<not> mu_writer c
                 then Return (c\<lparr>mu_readers := Suc (mu_readers c)\<rparr>) else Blocked)"

definition mu_RUnlock :: "chromeWebView \<Rightarrow> chromeWebView" where
  "mu_RUnlock c = c\<lparr>mu_readers := mu_readers c - 1\<rparr>"

definition slog_msg :: "string \<Rightarrow> chromeWebView \<Rightarrow> chromeWebView" where
  "slog_msg m c = c\<lparr>slog := slog c @ [m]\<rparr>"

subsection \<open>GetValue and SetValue\<close>

text \<open>
  \<open>c.elements[elementID]\<close> on a Go map yields the zero value, the empty string, for a
  missing key.
\<close>

definition map_index :: "(string \<rightharpoonup> string) \<Rightarrow> string \<Rightarrow> string" where
  "map_index m k = (case m k of None \<Rightarrow> [] | Some v \<Rightarrow> v)"

definition GetValue :: "chromeWebView \<Rightarrow> string \<Rightarrow> string outcome" where
  "GetValue c elementID =
     andThen (mu_RLock c) (\<lambda>c1. Return (map_index (elements c1) elementID))"

definition SetValue :: "page \<Rightarrow> string \<Rightarrow> string \<Rightarrow> chromeWebView \<Rightarrow> chromeWebView outcome" where
  "SetValue pg elementID v c =
     andThen (mu_Lock c) (\<lambda>c1.
       let c2 = mu_Unlock (c1\<lparr>elements := (elements c1)(elementID \<mapsto> v)\<rparr>) in
       (case pg_Element pg (''#'' @ elementID) of
          Inl err \<Rightarrow> Return (slog_msg ''SetValue: element not found'' c2)
        | Inr el \<Rightarrow>
            (case el_Input el v of
               Some err \<Rightarrow> Return (slog_msg ''SetValue: input failed'' c2)
             | None \<Rightarrow> Return c2)))"

subsection \<open>Listeners and Navigate\<close>

definition setupListener :: "page \<Rightarrow> string \<Rightarrow> chromeWebView \<Rightarrow> chromeWebView outcome" where
  "setupListener pg elementID c =
     (case pg_Element pg (''#'' @ elementID) of
        Inl err \<Rightarrow> Return (slog_msg ''setupListener: element not found'' c)
      | Inr el \<Rightarrow>
          andThen
            (case el_Property_value el of
               Inr str \<Rightarrow>
                 andThen (mu_Lock c) (\<lambda>c1.
                   Return (mu_Unlock (c1\<lparr>elements := (elements c1)(elementID \<mapsto> str)\<rparr>)))
             | Inl err \<Rightarrow> Return c)
            (\<lambda>c2. Return (c2\<lparr>pollers := pollers c2 @ [elementID]\<rparr>)))"

definition AddListener :: "page \<Rightarrow> string \<Rightarrow> chromeWebView \<Rightarrow> chromeWebView outcome" where
  "AddListener pg elementID c =
     andThen (mu_Lock c) (\<lambda>c1.
       setupListener pg elementID
         (mu_Unlock (c1\<lparr>listeners := (listeners c1)(elementID \<mapsto> True)\<rparr>)))"

definition RemoveListener :: "string \<Rightarrow> chromeWebView \<Rightarrow> chromeWebView outcome" where
  "RemoveListener elementID c =
     andThen (mu_Lock c) (\<lambda>c1.
       let c2 = c1\<lparr>listeners := (listeners c1)(elementID := None)\<rparr>;
           c3 = c2\<lparr>elements := (elements c2)(elementID := None)\<rparr>
       in Return (mu_Unlock c3))"

text \<open>
  The loop \<open>for elementID := range c.listeners\<close> of \<open>Navigate\<close>. Go visits the keys of a
  map in an order of its choosing; \<open>order\<close> is that order, an enumeration of the keys.
\<close>

fun range_listeners :: "page \<Rightarrow> string list \<Rightarrow> chromeWebView \<Rightarrow> chromeWebView outcome" where
  "range_listeners pg [] c = Return c"
| "range_listeners pg (elementID # rest) c =
     andThen (setupListener pg elementID c) (range_listeners pg rest)"

definition is_range_order :: "string list \<Rightarrow> chromeWebView \<Rightarrow> bool" where
  "is_range_order order c \<longleftrightarrow> distinct order \<and> set order = dom (listeners c)"

definition Navigate :: "page \<Rightarrow> string list \<Rightarrow> string \<Rightarrow> chromeWebView \<Rightarrow> chromeWebView outcome" where
  "Navigate pg order url c =
     andThen (mu_Lock (slog_msg ''Navigate'' c)) (\<lambda>c1.
       let c2 = mu_Unlock (c1\<lparr>elements := Map.empty\<rparr>) in
       (case pg_Navigate pg url of
          Some err \<Rightarrow> Return (slog_msg ''Navigate failed'' c2)
        | None \<Rightarrow>
            (case pg_WaitLoad pg of
               Some err \<Rightarrow> Panic MustWaitLoadFailed
             | None \<Rightarrow>
                 andThen (mu_RLock c2) (\<lambda>c3.
                   andThen (range_listeners pg order c3) (\<lambda>c4.
                     Return (mu_RUnlock c4))))))"

subsection \<open>The sampling loop\<close>

text \<open>
  One iteration of \<open>for { select { case <-c.ctx.Done(): ...; case <-ticker.C: ... } }\<close>.
  The \<open>select\<close> takes a case that is ready: \<open>ctx.Done()\<close> is ready once the context is
  cancelled, \<open>ticker.C\<close> when a tick is pending (\<open>ev_tick\<close>); when both are ready Go
  picks one of them (\<open>ev_pick\<close>); when none is, the goroutine keeps waiting.
\<close>

datatype select_case = Ctx_Done | Ticker_C

record poll_event =
  ev_tick :: bool
  ev_pick :: select_case
  ev_page :: page

datatype 'a loop_step = Exit 'a | Continue 'a

definition go_select :: "poll_event \<Rightarrow> chromeWebView \<Rightarrow> select_case option" where
  "go_select ev c =
     (if ctx_done c \<and> ev_tick ev then Some (ev_pick ev)
      else if ctx_done c then Some Ctx_Done
      else if ev_tick ev then Some Ticker_C
      else None)"

definition poll_tick :: "page \<Rightarrow> string \<Rightarrow> chromeWebView \<Rightarrow> chromeWebView loop_step outcome" where
  "poll_tick pg elementID c =
     andThen (mu_RLock c) (\<lambda>c1.
       let exists = (listeners c1 elementID \<noteq> None);
           c2 = mu_RUnlock c1
       in if \<not> exists then Return (Exit c2)
          else (case pg_Element pg (''#'' @ elementID) of
                  Inl err \<Rightarrow> Return (Continue c2)
                | Inr el \<Rightarrow>
                    (case el_Property_value el of
                       Inl err \<Rightarrow> Return (Continue c2)
                     | Inr str \<Rightarrow>
                         andThen (mu_Lock c2) (\<lambda>c3.
                           Return (Continue
                             (mu_Unlock (c3\<lparr>elements := (elements c3)(elementID \<mapsto> str)\<rparr>)))))))"

definition poll_iteration :: "poll_event \<Rightarrow> string \<Rightarrow> chromeWebView \<Rightarrow> chromeWebView loop_step outcome" where
  "poll_iteration ev elementID c =
     (case go_select ev c of
        None \<Rightarrow> Return (Continue c)
      | Some Ctx_Done \<Rightarrow> Return (Exit c)
      | Some Ticker_C \<Rightarrow> poll_tick (ev_page ev) elementID c)"

text \<open>
  The loop over a finite prefix of its run. Each entry is what the other goroutines did
  to the session since the previous iteration, and the event of this iteration.
  \<open>Continue\<close> at the end of the prefix: the loop is still running.
\<close>

fun pollElementValue ::
  "((chromeWebView \<Rightarrow> chromeWebView) \<times> poll_event) list \<Rightarrow> string \<Rightarrow> chromeWebView
     \<Rightarrow> chromeWebView loop_step outcome" where
  "pollElementValue [] elementID c = Return (Continue c)"
| "pollElementValue ((others, ev) # evs) elementID c =
     andThen (poll_iteration ev elementID (others c)) (\<lambda>r.
       case r of Exit c' \<Rightarrow> Return (Exit c')
               | Continue c' \<Rightarrow> pollElementValue evs elementID c')"

subsection \<open>Cookies\<close>

fun GetCookie_loop :: "string \<Rightarrow> string \<Rightarrow> cookie list \<Rightarrow> string" where
  "GetCookie_loop key domain [] = []"
| "GetCookie_loop key domain (ck # cookies) =
     (if ck_Name ck = key \<and> (ck_Domain ck = domain \<or>
           ck_Domain ck = ''.'' @ domain \<or>
           domain = [] \<or>
           ck_Domain ck = [])
      then ck_Value ck
      else GetCookie_loop key domain cookies)"

definition GetCookie :: "page \<Rightarrow> string \<Rightarrow> string \<Rightarrow> chromeWebView \<Rightarrow> string \<times> chromeWebView" where
  "GetCookie pg key domain c =
     (let urls = (if domain \<noteq> [] then [''https://'' @ domain] else []) in
      case pg_Cookies pg urls of
        Inl err \<Rightarrow> ([], slog_msg ''GetCookie failed'' c)
      | Inr cookies \<Rightarrow> (GetCookie_loop key domain cookies, c))"

text \<open>The claim's words: the first cookie that matches by name and tolerant domain.\<close>

definition cookie_matches :: "string \<Rightarrow> string \<Rightarrow> cookie \<Rightarrow> bool" where
  "cookie_matches key domain ck \<longleftrightarrow>
     ck_Name ck = key \<and>
     (ck_Domain ck = domain \<or> ck_Domain ck = ''.'' @ domain \<or> domain = [] \<or> ck_Domain ck = [])"

definition first_matching_value :: "string \<Rightarrow> string \<Rightarrow> cookie list \<Rightarrow> string" where
  "first_matching_value key domain cookies =
     (case List.find (cookie_matches key domain) cookies of
        None \<Rightarrow> []
      | Some ck \<Rightarrow> ck_Value ck)"

subsection \<open>Destroy\<close>

text \<open>
  \<open>c.cancel()\<close> may be called any number of times; \<open>close(c.stopChan)\<close> panics on a
  closed channel. \<open>removeAll\<close> is the answer of \<open>os.RemoveAll(c.tmpDir)\<close>.
\<close>

definition Destroy :: "(string list \<Rightarrow> bool) \<Rightarrow> chromeWebView \<Rightarrow> chromeWebView outcome" where
  "Destroy removeAll_fails c =
     (let c1 = c\<lparr>ctx_done := True\<rparr> in
      if stopChan_closed c1 then Panic CloseOfClosedChannel
      else
        let c2 = c1\<lparr>stopChan_closed := True\<rparr>;
            c3 = c2\<lparr>page_closed := True\<rparr>;
            c4 = c3\<lparr>browser_closed := True\<rparr>
        in if c_tmpDir c4 \<noteq> [] \<and> removeAll_fails (c_tmpDir c4)
           then Return (slog_msg ''Failed to remove temp dir'' c4)
           else Return c4)"

section \<open>The profile store of profile.go\<close>

text \<open>
  A path is the list of its components, and \<open>filepath.Join\<close> appends a component.
\<close>

type_synonym path = "string list"

definition Join :: "path \<Rightarrow> string \<Rightarrow> path" where
  "Join p name = p @ [name]"

text \<open>
  The source side of a copy is a tree: what \<open>os.Stat\<close>, \<open>os.ReadDir\<close> and \<open>os.Open\<close>
  find at a path. The tree holds regular files and directories (an entry that is
  a symbolic link is not modelled), and a created file or directory records the
  permission argument of the call that creates it (the process umask is not applied). The destination side is a store from paths to what has been created
  there. Whether an operation of the operating system fails is an input (\<open>fails\<close>); an
  operation also fails where the tree says it must: a missing source, \<open>ReadDir\<close> of a
  file, reading the bytes of a directory, opening a directory for writing.
  \<open>io.Copy\<close> that fails has written \<open>copy_written\<close> bytes. \<open>unmarshal\<close> is
  \<open>json.Unmarshal\<close> into the anonymous struct of \<open>ListChromeProfiles\<close>: the entries of
  \<open>profile.info_cache\<close> (key and name) in the order the later \<open>range\<close> visits them, or
  an error.
\<close>

datatype io_error = ENOENT | ENOTDIR | EISDIR | EIO

datatype fsnode = File nat string | Dir nat "(string \<times> fsnode) list"

datatype dnode = DFile nat string | DDir nat

datatype fs_op = OpStat path | OpMkdirAll path | OpReadDir path | OpOpen path
  | OpFileStat path | OpOpenFile path | OpCopy path | OpMkdirTemp | OpReadFile path

record host =
  goos :: string
  home :: path
  localappdata :: path
  src_fs :: "path \<Rightarrow> fsnode option"
  fails :: "fs_op \<Rightarrow> bool"
  copy_written :: "path \<Rightarrow> nat"
  mkdir_temp :: path
  unmarshal :: "string \<Rightarrow> (string \<times> string) list option"

record world =
  files :: "path \<rightharpoonup> dnode"
  wlog :: "string list"

definition wlog_msg :: "string \<Rightarrow> world \<Rightarrow> world" where
  "wlog_msg m w = w\<lparr>wlog := wlog w @ [m]\<rparr>"

fun Mode :: "fsnode \<Rightarrow> nat" where
  "Mode (File m d) = m"
| "Mode (Dir m es) = m"

fun IsDir :: "fsnode \<Rightarrow> bool" where
  "IsDir (File m d) = False"
| "IsDir (Dir m es) = True"

definition os_Stat :: "host \<Rightarrow> path \<Rightarrow> fsnode option \<Rightarrow> io_error + nat" where
  "os_Stat H p nd =
     (if fails H (OpStat p) then Inl EIO
      else case nd of None \<Rightarrow> Inl ENOENT | Some n \<Rightarrow> Inr (Mode n))"

definition os_MkdirAll :: "host \<Rightarrow> path \<Rightarrow> nat \<Rightarrow> world \<Rightarrow> world \<times> io_error option" where
  "os_MkdirAll H p perm w =
     (if fails H (OpMkdirAll p) then (w, Some EIO)
      else (w\<lparr>files := (\<lambda>q. if q \<noteq> [] \<and> prefix q p \<and> files w q = None
                              then Some (DDir perm) else files w q)\<rparr>, None))"

definition os_ReadDir :: "host \<Rightarrow> path \<Rightarrow> fsnode option \<Rightarrow> io_error + (string \<times> fsnode) list" where
  "os_ReadDir H p nd =
     (if fails H (OpReadDir p) then Inl EIO
      else case nd of
             None \<Rightarrow> Inl ENOENT
           | Some (File m d) \<Rightarrow> Inl ENOTDIR
           | Some (Dir m es) \<Rightarrow> Inr es)"

definition skipFiles :: "string list" where
  "skipFiles = [''SingletonLock'', ''SingletonSocket'', ''SingletonCookie'', ''lockfile'',
                ''LOCK'', ''LOG'', ''LOG.old'']"

fun shouldSkipFile_loop :: "string list \<Rightarrow> string \<Rightarrow> bool" where
  "shouldSkipFile_loop [] name = False"
| "shouldSkipFile_loop (skip # rest) name =
     (if name = skip \<or> prefix skip name then True else shouldSkipFile_loop rest name)"

definition shouldSkipFile :: "string \<Rightarrow> bool" where
  "shouldSkipFile name = shouldSkipFile_loop skipFiles name"

definition copyFile :: "host \<Rightarrow> fsnode option \<Rightarrow> path \<Rightarrow> path \<Rightarrow> world \<Rightarrow> world \<times> io_error option" where
  "copyFile H nd src dst w =
     (if fails H (OpOpen src) then (w, Some EIO)
      else case nd of
        None \<Rightarrow> (w, Some ENOENT)
      | Some n \<Rightarrow>
          if fails H (OpFileStat src) then (w, Some EIO)
          else if fails H (OpOpenFile dst) then (w, Some EIO)
          else (case files w dst of
                  Some (DDir m) \<Rightarrow> (w, Some EISDIR)
                | other \<Rightarrow>
                    let perm = (case other of Some (DFile m d) \<Rightarrow> m | _ \<Rightarrow> Mode n);
                        w1 = w\<lparr>files := (files w)(dst \<mapsto> DFile perm [])\<rparr>
                    in (case n of
                          Dir m es \<Rightarrow> (w1, Some EISDIR)
                        | File m d \<Rightarrow>
                            if fails H (OpCopy src)
                            then (w1\<lparr>files := (files w1)(dst \<mapsto> DFile perm (take (copy_written H src) d))\<rparr>,
                                  Some EIO)
                            else (w1\<lparr>files := (files w1)(dst \<mapsto> DFile perm d)\<rparr>, None))))"

text \<open>
  \<open>copyDir\<close> and its loop over the entries. \<open>nd\<close> is what the file system holds at
  \<open>src\<close>; for an entry of a listing it is the entry's node.
\<close>

function copyDir :: "host \<Rightarrow> fsnode option \<Rightarrow> path \<Rightarrow> path \<Rightarrow> world \<Rightarrow> world \<times> io_error option"
  and copyDir_entries :: "host \<Rightarrow> (string \<times> fsnode) list \<Rightarrow> path \<Rightarrow> path \<Rightarrow> world \<Rightarrow> world"
where
  "copyDir H nd src dst w =
     (case os_Stat H src nd of
        Inl err \<Rightarrow> (w, Some err)
      | Inr srcMode \<Rightarrow>
          (case os_MkdirAll H dst srcMode w of
             (w1, Some err) \<Rightarrow> (w1, Some err)
           | (w1, None) \<Rightarrow>
               (case os_ReadDir H src nd of
                  Inl err \<Rightarrow> (w1, Some err)
                | Inr entries \<Rightarrow> (copyDir_entries H entries src dst w1, None))))"
| "copyDir_entries H [] src dst w = w"
| "copyDir_entries H (entry # rest) src dst w =
     (let srcPath = Join src (fst entry);
          dstPath = Join dst (fst entry)
      in if shouldSkipFile (fst entry) then copyDir_entries H rest src dst w
         else if IsDir (snd entry) then
           (case copyDir H (Some (snd entry)) srcPath dstPath w of
              (w1, Some err) \<Rightarrow> copyDir_entries H rest src dst (wlog_msg ''Failed to copy directory'' w1)
            | (w1, None) \<Rightarrow> copyDir_entries H rest src dst w1)
         else
           (case copyFile H (Some (snd entry)) srcPath dstPath w of
              (w1, Some err) \<Rightarrow> copyDir_entries H rest src dst (wlog_msg ''Failed to copy file'' w1)
            | (w1, None) \<Rightarrow> copyDir_entries H rest src dst w1))"
  by pat_completeness auto
termination
proof -
  have le: "size_list (\<lambda>x. size (snd x)) es \<le> size_list (size_prod (\<lambda>x. 0) size) es"
    for es :: "(string \<times> fsnode) list"
    by (induction es) auto
  have rd: "size_list (\<lambda>x. size (snd x)) es < size_option size nd"
    if "os_ReadDir H p nd = Inr es" for H p nd es
    using that le [of es]
    by (auto simp: os_ReadDir_def split: if_splits option.splits fsnode.splits)
  show ?thesis
    by (relation "measure (\<lambda>x. case x of
            Inl (H, nd, src, dst, w) \<Rightarrow> 2 * size_option size nd + 1
          | Inr (H, es, src, dst, w) \<Rightarrow> 2 * size_list (\<lambda>x. size (snd x)) es + 2)")
       (auto dest: rd)
qed

declare copyDir.simps [simp del]

record ChromeProfile =
  Name :: string
  Directory :: string
  Path :: path

definition CopyProfile :: "host \<Rightarrow> ChromeProfile \<Rightarrow> path \<Rightarrow> world \<Rightarrow> world \<times> io_error option" where
  "CopyProfile H profile destDir w = copyDir H (src_fs H (Path profile)) (Path profile) destDir w"

subsection \<open>Listing the profiles\<close>

definition GetChromeUserDataDir :: "host \<Rightarrow> path" where
  "GetChromeUserDataDir H =
     (if goos H = ''darwin''
      then home H @ [''Library'', ''Application Support'', ''Google'', ''Chrome'']
      else if goos H = ''windows''
      then localappdata H @ [''Google'', ''Chrome'', ''User Data'']
      else home H @ [''.config'', ''google-chrome''])"

datatype list_error = ReadFileError io_error | UnmarshalError

definition os_ReadFile :: "host \<Rightarrow> path \<Rightarrow> io_error + string" where
  "os_ReadFile H p =
     (if fails H (OpReadFile p) then Inl EIO
      else case src_fs H p of
             None \<Rightarrow> Inl ENOENT
           | Some (Dir m es) \<Rightarrow> Inl EISDIR
           | Some (File m d) \<Rightarrow> Inr d)"

fun ListChromeProfiles_loop ::
  "path \<Rightarrow> (string \<times> string) list \<Rightarrow> ChromeProfile list \<Rightarrow> ChromeProfile list" where
  "ListChromeProfiles_loop userDataDir [] profiles = profiles"
| "ListChromeProfiles_loop userDataDir ((dir, info_name) # rest) profiles =
     ListChromeProfiles_loop userDataDir rest
       (profiles @ [\<lparr>Name = info_name, Directory = dir, Path = Join userDataDir dir\<rparr>])"

definition ListChromeProfiles :: "host \<Rightarrow> list_error + ChromeProfile list" where
  "ListChromeProfiles H =
     (let userDataDir = GetChromeUserDataDir H;
          localStatePath = Join userDataDir ''Local State''
      in case os_ReadFile H localStatePath of
           Inl err \<Rightarrow> Inl (ReadFileError err)
         | Inr data \<Rightarrow>
             (case unmarshal H data of
                None \<Rightarrow> Inl UnmarshalError
              | Some info_cache \<Rightarrow> Inr (ListChromeProfiles_loop userDataDir info_cache [])))"

section \<open>The launch options\<close>

record chromeOptions =
  profileDir :: string
  userDataDir :: path
  tmpDir :: path
  headless :: bool

text \<open>
  A \<open>ChromeOption\<close> is a function on the options; \<open>WithCopiedProfile\<close> also writes
  files and log lines, so an option acts on the options and the world.
\<close>

type_synonym ChromeOption = "chromeOptions \<times> world \<Rightarrow> chromeOptions \<times> world"

definition WithProfile :: "string \<Rightarrow> ChromeOption" where
  "WithProfile dir = (\<lambda>(o1, w). (o1\<lparr>profileDir := dir\<rparr>, w))"

definition WithUserDataDir :: "path \<Rightarrow> ChromeOption" where
  "WithUserDataDir dir = (\<lambda>(o1, w). (o1\<lparr>userDataDir := dir\<rparr>, w))"

definition WithHeadless :: "ChromeOption" where
  "WithHeadless = (\<lambda>(o1, w). (o1\<lparr>headless := True\<rparr>, w))"

definition WithChromeProfile :: "host \<Rightarrow> ChromeProfile \<Rightarrow> ChromeOption" where
  "WithChromeProfile H profile =
     (\<lambda>(o1, w). (o1\<lparr>userDataDir := GetChromeUserDataDir H, profileDir := Directory profile\<rparr>, w))"

definition os_MkdirTemp :: "host \<Rightarrow> world \<Rightarrow> world \<times> (io_error + path)" where
  "os_MkdirTemp H w =
     (if fails H OpMkdirTemp then (w, Inl EIO)
      else (w\<lparr>files := (files w)(mkdir_temp H \<mapsto> DDir 448)\<rparr>, Inr (mkdir_temp H)))"

definition dst_ReadDir_fails :: "host \<Rightarrow> path \<Rightarrow> world \<Rightarrow> bool" where
  "dst_ReadDir_fails H p w \<longleftrightarrow>
     fails H (OpReadDir p) \<or> (case files w p of Some (DDir m) \<Rightarrow> False | _ \<Rightarrow> True)"

definition WithCopiedProfile :: "host \<Rightarrow> ChromeProfile \<Rightarrow> ChromeOption" where
  "WithCopiedProfile H profile =
     (\<lambda>(o1, w).
        case os_MkdirTemp H w of
          (w1, Inl err) \<Rightarrow> (o1, wlog_msg ''Failed to create temp dir'' w1)
        | (w1, Inr tmp) \<Rightarrow>
            let o2 = o1\<lparr>tmpDir := tmp\<rparr>;
                profileDestDir = Join tmp ''Default'';
                w2 = wlog_msg ''Copying profile'' w1;
                w3 = (case CopyProfile H profile profileDestDir w2 of
                        (w', Some err) \<Rightarrow> wlog_msg ''Failed to copy profile'' w'
                      | (w', None) \<Rightarrow> w');
                chromeDataDir = GetChromeUserDataDir H;
                localStateSrc = Join chromeDataDir ''Local State'';
                localStateDst = Join tmp ''Local State'';
                w4 = (case copyFile H (src_fs H localStateSrc) localStateSrc localStateDst w3 of
                        (w', Some err) \<Rightarrow> wlog_msg ''Failed to copy Local State'' w'
                      | (w', None) \<Rightarrow> wlog_msg ''Copied Local State file'' w');
                w5 = (if dst_ReadDir_fails H profileDestDir w4
                      then wlog_msg ''Failed to read copied profile dir'' w4
                      else wlog_msg ''Copied profile contents'' w4)
            in (o2\<lparr>userDataDir := tmp, profileDir := ''Default''\<rparr>, w5))"

section \<open>Creating a session\<close>

text \<open>
  \<open>NewChromeWebView\<close> applies the options in order to the zero options, launches the
  browser through the driver (each \<open>Must\<close> call panics when the driver fails) and builds
  the session with two fresh maps and an open \<open>stopChan\<close>.
\<close>

record launch =
  lookPath_found :: bool
  launch_fails :: bool
  connect_fails :: bool
  page_fails :: bool
  setWindow_fails :: bool

fun apply_opts :: "ChromeOption list \<Rightarrow> chromeOptions \<times> world \<Rightarrow> chromeOptions \<times> world" where
  "apply_opts [] ow = ow"
| "apply_opts (opt # opts) ow = apply_opts opts (opt ow)"

definition zero_options :: chromeOptions where
  "zero_options = \<lparr>profileDir = [], userDataDir = [], tmpDir = [], headless = False\<rparr>"

definition NewChromeWebView :: "launch \<Rightarrow> ChromeOption list \<Rightarrow> world \<Rightarrow> (chromeWebView \<times> world) outcome" where
  "NewChromeWebView L opts w =
     (case apply_opts opts (zero_options, w) of
        (options, w1) \<Rightarrow>
          let log1 = (if \<not> lookPath_found L then [''Chrome not found in system''] else []);
              log2 = log1 @ [''Chrome launch args'']
          in if launch_fails L then Panic MustLaunchFailed
             else if connect_fails L then Panic MustConnectFailed
             else if page_fails L then Panic MustPageFailed
             else if setWindow_fails L then Panic MustSetWindowFailed
             else Return
               (\<lparr>elements = Map.empty,
                 listeners = Map.empty,
                 mu_readers = 0,
                 mu_writer = False,
                 ctx_done = False,
                 stopChan_closed = False,
                 page_closed = False,
                 browser_closed = False,
                 c_tmpDir = tmpDir options,
                 pollers = [],
                 slog = log2\<rparr>, w1))"

section \<open>Runs of a session\<close>

text \<open>
  A run is a sequence of calls by the caller and of iterations of the sampling loops
  that are running. An iteration of the loop for \<open>elementID\<close> needs a goroutine started
  for it; a loop that exits is no longer running.
\<close>

datatype call =
    CallNavigate page "string list" string
  | CallSetValue page string string
  | CallAddListener page string
  | CallRemoveListener string
  | PollerStep poll_event string

fun exec_call :: "call \<Rightarrow> chromeWebView \<Rightarrow> chromeWebView outcome" where
  "exec_call (CallNavigate pg order url) c = Navigate pg order url c"
| "exec_call (CallSetValue pg elementID v) c = SetValue pg elementID v c"
| "exec_call (CallAddListener pg elementID) c = AddListener pg elementID c"
| "exec_call (CallRemoveListener elementID) c = RemoveListener elementID c"
| "exec_call (PollerStep ev elementID) c =
     (if elementID \<in> set (pollers c)
      then andThen (poll_iteration ev elementID c) (\<lambda>r.
             case r of Exit c' \<Rightarrow> Return (c'\<lparr>pollers := remove1 elementID (pollers c')\<rparr>)
                     | Continue c' \<Rightarrow> Return c')
      else Return c)"

fun run_calls :: "call list \<Rightarrow> chromeWebView \<Rightarrow> chromeWebView outcome" where
  "run_calls [] c = Return c"
| "run_calls (x # xs) c = andThen (exec_call x c) (run_calls xs)"

text \<open>The range order of each \<open>Navigate\<close> of a run enumerates the watch set of its state.\<close>

fun range_orders_ok :: "call list \<Rightarrow> chromeWebView \<Rightarrow> bool" where
  "range_orders_ok [] c = True"
| "range_orders_ok (x # xs) c =
     ((case x of CallNavigate pg order url \<Rightarrow> is_range_order order c | _ \<Rightarrow> True) \<and>
      (case exec_call x c of Return c' \<Rightarrow> range_orders_ok xs c' | _ \<Rightarrow> True))"

fun passes_id :: "string \<Rightarrow> call \<Rightarrow> bool" where
  "passes_id i (CallSetValue pg elementID v) = (elementID = i)"
| "passes_id i (CallAddListener pg elementID) = (elementID = i)"
| "passes_id i x = False"

section \<open>Definitions for the statements\<close>

text \<open>The facts a run keeps for an identifier that no call passes.\<close>

definition untouched :: "string \<Rightarrow> chromeWebView \<Rightarrow> bool" where
  "untouched i c \<longleftrightarrow> elements c i = None \<and> listeners c i = None \<and> i \<notin> set (pollers c)"

definition sample_value :: "page \<Rightarrow> string \<Rightarrow> string option" where
  "sample_value pg elementID =
     (case pg_Element pg (''#'' @ elementID) of
        Inl err \<Rightarrow> None
      | Inr el \<Rightarrow> (case el_Property_value el of Inl err \<Rightarrow> None | Inr str \<Rightarrow> Some str))"

definition exit_reason :: "poll_event \<Rightarrow> string \<Rightarrow> chromeWebView \<Rightarrow> bool" where
  "exit_reason ev elementID c \<longleftrightarrow>
     go_select ev c = Some Ctx_Done \<or>
     (go_select ev c = Some Ticker_C \<and> listeners c elementID = None)"

definition empty_page :: page where
  "empty_page = \<lparr>pg_Element = (\<lambda>sel. Inl ElementNotFound),
                  pg_Navigate = (\<lambda>url. None),
                  pg_WaitLoad = None,
                  pg_Cookies = (\<lambda>urls. Inr [])\<rparr>"

definition page_with_a :: page where
  "page_with_a = \<lparr>pg_Element = (\<lambda>sel. if sel = ''#a''
                     then Inr \<lparr>el_Property_value = Inr ''x'', el_Input = (\<lambda>v. None)\<rparr>
                     else Inl ElementNotFound),
                  pg_Navigate = (\<lambda>url. None),
                  pg_WaitLoad = None,
                  pg_Cookies = (\<lambda>urls. Inr [])\<rparr>"

definition fresh_session :: chromeWebView where
  "fresh_session = \<lparr>elements = Map.empty, listeners = Map.empty, mu_readers = 0,
     mu_writer = False, ctx_done = False, stopChan_closed = False, page_closed = False,
     browser_closed = False, c_tmpDir = [], pollers = [], slog = [''Chrome launch args'']\<rparr>"

definition working_launch :: launch where
  "working_launch = \<lparr>lookPath_found = True, launch_fails = False, connect_fails = False,
     page_fails = False, setWindow_fails = False\<rparr>"





definition empty_world :: world where
  "empty_world = \<lparr>files = Map.empty, wlog = []\<rparr>"

definition watching_a :: chromeWebView where
  "watching_a = fresh_session\<lparr>listeners := [''a'' \<mapsto> True], pollers := [''a'']\<rparr>"

definition cancelled_watching_a :: chromeWebView where
  "cancelled_watching_a = watching_a\<lparr>ctx_done := True\<rparr>"

definition tick_on_a :: poll_event where
  "tick_on_a = \<lparr>ev_tick = True, ev_pick = Ticker_C, ev_page = page_with_a\<rparr>"

definition tick_on_empty :: poll_event where
  "tick_on_empty = \<lparr>ev_tick = True, ev_pick = Ticker_C, ev_page = empty_page\<rparr>"

definition no_tick :: poll_event where
  "no_tick = \<lparr>ev_tick = False, ev_pick = Ctx_Done, ev_page = empty_page\<rparr>"

definition destroyed_session :: chromeWebView where
  "destroyed_session = fresh_session\<lparr>ctx_done := True, stopChan_closed := True,
     page_closed := True, browser_closed := True\<rparr>"

definition destroyed_after_set :: chromeWebView where
  "destroyed_after_set = destroyed_session\<lparr>elements := [''a'' \<mapsto> ''v''],
     slog := slog destroyed_session @ [''SetValue: element not found'']\<rparr>"

definition watching_a_sampled :: chromeWebView where
  "watching_a_sampled = watching_a\<lparr>elements := [''a'' \<mapsto> ''x'']\<rparr>"

text \<open>What \<open>RemoveListener\<close>, run by another goroutine, does to the session.\<close>

definition RemoveListener_effect :: "string \<Rightarrow> chromeWebView \<Rightarrow> chromeWebView" where
  "RemoveListener_effect elementID c =
     c\<lparr>listeners := (listeners c)(elementID := None), elements := (elements c)(elementID := None)\<rparr>"

lemmas example_defs = destroyed_session_def destroyed_after_set_def watching_a_sampled_def fresh_session_def watching_a_def cancelled_watching_a_def tick_on_a_def
  tick_on_empty_def no_tick_def page_with_a_def empty_page_def empty_world_def working_launch_def

definition chrome_dir :: path where
  "chrome_dir = [''home'', ''u'', ''.config'', ''google-chrome'']"

definition default_entries :: "(string \<times> fsnode) list" where
  "default_entries = [(''LOCK'', File 384 ''l''), (''SingletonLock'', File 384 ''s''),
                      (''data.db'', File 384 ''abc'')]"

definition plain_host :: host where
  "plain_host = \<lparr>goos = ''linux'', home = [''home'', ''u''], localappdata = [],
     src_fs = (\<lambda>p. if p = chrome_dir @ [''Default''] then Some (Dir 448 default_entries)
                    else if p = chrome_dir @ [''Local State''] then Some (File 384 ''local state'')
                    else None),
     fails = (\<lambda>op. False), copy_written = (\<lambda>p. 0),
     mkdir_temp = [''tmp'', ''rod-wrap-profile-1''],
     unmarshal = (\<lambda>s. if s = ''local state'' then Some [(''Default'', ''Person 1'')] else None)\<rparr>"

definition default_profile :: ChromeProfile where
  "default_profile = \<lparr>Name = ''Person 1'', Directory = ''Default'', Path = chrome_dir @ [''Default'']\<rparr>"

definition sub_entry :: "string \<times> fsnode" where
  "sub_entry = (''Cache'', Dir 448 [])"

definition db_entry :: "string \<times> fsnode" where
  "db_entry = (''data.db'', File 384 ''abc'')"

definition faulty_host :: host where
  "faulty_host = plain_host\<lparr>
     src_fs := (\<lambda>p. if p = chrome_dir @ [''Default''] then Some (Dir 448 [sub_entry, db_entry])
                    else None),
     fails := (\<lambda>op. op = OpReadDir (chrome_dir @ [''Default'', ''Cache'']) \<or>
                     op = OpOpen (chrome_dir @ [''Default'', ''data.db'']) \<or>
                     op = OpMkdirTemp)\<rparr>"

lemmas host_defs = chrome_dir_def default_entries_def plain_host_def default_profile_def
  sub_entry_def db_entry_def faulty_host_def


fun distinct_names :: "fsnode \<Rightarrow> bool"
  and distinct_entries :: "(string \<times> fsnode) list \<Rightarrow> bool" where
  "distinct_names (File m d) = True"
| "distinct_names (Dir m es) = distinct_entries es"
| "distinct_entries [] = True"
| "distinct_entries ((k, child) # rest) =
     (k \<notin> fst ` set rest \<and> distinct_names child \<and> distinct_entries rest)"


text \<open>
  A page on a cancelled context, a tick taken after the cancellation, and a profile with
  a subdirectory, one of whose files cannot be opened.
\<close>

definition cancelled_page :: page where
  "cancelled_page = \<lparr>pg_Element = (\<lambda>sel. Inl ContextCanceled),
                      pg_Navigate = (\<lambda>url. Some ContextCanceled),
                      pg_WaitLoad = Some ContextCanceled,
                      pg_Cookies = (\<lambda>urls. Inl ContextCanceled)\<rparr>"

definition tick_after_cancel :: poll_event where
  "tick_after_cancel = \<lparr>ev_tick = True, ev_pick = Ticker_C, ev_page = cancelled_page\<rparr>"



section \<open>Properties\<close>



lemma mu_Lock_free: "mu_free c \<Longrightarrow> mu_Lock c = Return (c\<lparr>mu_writer := True\<rparr>)"
  by (simp add: mu_free_def mu_Lock_def)

lemma mu_RLock_free: "mu_free c \<Longrightarrow> mu_RLock c = Return (c\<lparr>mu_readers := Suc 0\<rparr>)"
  by (simp add: mu_free_def mu_RLock_def)

lemma SetValue_free:
  assumes "mu_free c"
  shows "SetValue pg elementID v c =
    Return ((c\<lparr>elements := (elements c)(elementID \<mapsto> v)\<rparr>)
      \<lparr>slog := slog c @
         (case pg_Element pg (''#'' @ elementID) of
            Inl err \<Rightarrow> [''SetValue: element not found'']
          | Inr el \<Rightarrow> (case el_Input el v of Some err \<Rightarrow> [''SetValue: input failed''] | None \<Rightarrow> []))\<rparr>)"
  using assms
  by (simp add: SetValue_def mu_Lock_free mu_Unlock_def slog_msg_def mu_free_def
           split: sum.splits option.splits)

lemma GetValue_free:
  "mu_free c \<Longrightarrow> GetValue c elementID = Return (map_index (elements c) elementID)"
  by (simp add: GetValue_def mu_RLock_free)

text \<open>
  Claim C1. From a state in which no goroutine holds the mutex, \<open>SetValue(id, v)\<close> returns,
  a \<open>GetValue(id)\<close> that follows returns \<open>v\<close>, and this whatever the driver answers to
  \<open>page.Element\<close> and \<open>el.Input\<close>: apart from the log, the state after the call is
  the state before it with the cache entry of \<open>id\<close> set to \<open>v\<close>.
\<close>

theorem SetValue_then_GetValue:
  assumes "mu_free c"
  shows "\<exists>c'. SetValue pg elementID v c = Return c' \<and>
              GetValue c' elementID = Return v \<and>
              c'\<lparr>slog := slog c\<rparr> = c\<lparr>elements := (elements c)(elementID \<mapsto> v)\<rparr>"
  using assms
  by (simp add: SetValue_free GetValue_free map_index_def mu_free_def)

subsection \<open>What a call keeps\<close>

lemma setupListener_Return:
  assumes "setupListener pg i c = Return c'"
  shows "listeners c' = listeners c" "stopChan_closed c' = stopChan_closed c"
    "mu_readers c' = mu_readers c" "mu_writer c' = mu_writer c"
    "j \<noteq> i \<Longrightarrow> elements c' j = elements c j"
    "set (pollers c') \<subseteq> insert i (set (pollers c))"
  using assms
  by (auto simp: setupListener_def mu_Lock_def mu_Unlock_def slog_msg_def
           split: sum.splits if_splits)

lemma setupListener_under_RLock:
  assumes "setupListener pg i c = Return c'" "0 < mu_readers c"
  shows "elements c' = elements c"
  using assms
  by (auto simp: setupListener_def mu_Lock_def mu_Unlock_def slog_msg_def
           split: sum.splits if_splits)

lemma range_listeners_Return:
  assumes "range_listeners pg order c = Return c'"
  shows "listeners c' = listeners c \<and> stopChan_closed c' = stopChan_closed c \<and>
    mu_readers c' = mu_readers c \<and> mu_writer c' = mu_writer c \<and>
    (0 < mu_readers c \<longrightarrow> elements c' = elements c) \<and>
    set (pollers c') \<subseteq> set order \<union> set (pollers c)"
  using assms
proof (induction order arbitrary: c)
  case Nil
  then show ?case by simp
next
  case (Cons i rest)
  from Cons.prems obtain c1 where s: "setupListener pg i c = Return c1"
    and r: "range_listeners pg rest c1 = Return c'"
    by (cases "setupListener pg i c") auto
  from Cons.IH [OF r] setupListener_Return [OF s] setupListener_under_RLock [OF s]
  show ?case by auto
qed

lemma Navigate_Return:
  assumes "Navigate pg order url c = Return c'"
  shows "elements c' = Map.empty \<and> listeners c' = listeners c \<and>
    stopChan_closed c' = stopChan_closed c \<and> mu_free c' \<and>
    set (pollers c') \<subseteq> set order \<union> set (pollers c)"
proof -
  from assms have f: "mu_readers c = 0" "\<not> mu_writer c"
    by (auto simp: Navigate_def mu_Lock_def slog_msg_def split: if_splits)
  define c2 where "c2 = (slog_msg ''Navigate'' c)\<lparr>elements := Map.empty\<rparr>"
  have l: "mu_Lock (slog_msg ''Navigate'' c) = Return ((slog_msg ''Navigate'' c)\<lparr>mu_writer := True\<rparr>)"
    using f by (simp add: mu_Lock_def slog_msg_def)
  have c2: "elements c2 = Map.empty" "listeners c2 = listeners c"
    "stopChan_closed c2 = stopChan_closed c" "mu_free c2" "pollers c2 = pollers c"
    using f by (simp_all add: c2_def slog_msg_def mu_free_def)
  have u: "mu_Unlock ((slog_msg ''Navigate'' c)\<lparr>mu_writer := True, elements := Map.empty\<rparr>) = c2"
    using f by (simp add: c2_def mu_Unlock_def slog_msg_def)
  show ?thesis
  proof (cases "pg_Navigate pg url")
    case (Some err)
    with assms l u have "c' = slog_msg ''Navigate failed'' c2"
      by (simp add: Navigate_def)
    with c2 show ?thesis
      by (simp add: slog_msg_def mu_free_def)
  next
    case None
    with assms l u have w: "pg_WaitLoad pg = None"
      by (cases "pg_WaitLoad pg") (simp_all add: Navigate_def)
    have rl: "mu_RLock c2 = Return (c2\<lparr>mu_readers := Suc 0\<rparr>)"
      using c2(4) by (simp add: mu_RLock_def mu_free_def)
    from assms l u None w rl obtain c4
      where r: "range_listeners pg order (c2\<lparr>mu_readers := Suc 0\<rparr>) = Return c4"
        and c': "c' = mu_RUnlock c4"
      by (cases "range_listeners pg order (c2\<lparr>mu_readers := Suc 0\<rparr>)")
         (simp_all add: Navigate_def)
    from range_listeners_Return [OF r] c2 c'
    show ?thesis
      by (simp add: mu_RUnlock_def mu_free_def)
  qed
qed

lemma SetValue_Return:
  assumes "SetValue pg i v c = Return c'"
  shows "listeners c' = listeners c \<and> stopChan_closed c' = stopChan_closed c \<and> mu_free c' \<and>
    pollers c' = pollers c \<and> (\<forall>j. j \<noteq> i \<longrightarrow> elements c' j = elements c j)"
  using assms
  by (auto simp: SetValue_def mu_Lock_def mu_Unlock_def slog_msg_def mu_free_def Let_def
           split: sum.splits option.splits if_splits)

lemma AddListener_Return:
  assumes "AddListener pg i c = Return c'"
  shows "stopChan_closed c' = stopChan_closed c \<and> mu_free c' \<and>
    set (pollers c') \<subseteq> insert i (set (pollers c)) \<and>
    (\<forall>j. j \<noteq> i \<longrightarrow> elements c' j = elements c j \<and> listeners c' j = listeners c j)"
proof -
  from assms have f: "mu_readers c = 0" "\<not> mu_writer c"
    by (auto simp: AddListener_def mu_Lock_def split: if_splits)
  define c2 where "c2 = c\<lparr>listeners := (listeners c)(i \<mapsto> True)\<rparr>"
  have "mu_Unlock (c\<lparr>mu_writer := True, listeners := (listeners c)(i \<mapsto> True)\<rparr>) = c2"
    using f by (simp add: c2_def mu_Unlock_def)
  with assms f have s: "setupListener pg i c2 = Return c'"
    by (simp add: AddListener_def mu_Lock_def)
  from setupListener_Return [OF s] f show ?thesis
    by (auto simp: c2_def mu_free_def)
qed

lemma RemoveListener_free:
  "mu_free c \<Longrightarrow> RemoveListener i c =
     Return (c\<lparr>listeners := (listeners c)(i := None), elements := (elements c)(i := None)\<rparr>)"
  by (simp add: RemoveListener_def mu_Lock_def mu_Unlock_def mu_free_def)

lemma RemoveListener_Return:
  assumes "RemoveListener i c = Return c'"
  shows "c' = c\<lparr>listeners := (listeners c)(i := None), elements := (elements c)(i := None)\<rparr> \<and>
    mu_free c"
  using assms
  by (auto simp: RemoveListener_def mu_Lock_def mu_Unlock_def mu_free_def split: if_splits)

lemma poll_tick_Return:
  assumes "poll_tick pg i c = Return r" "mu_free c"
  shows "\<exists>c'. (r = Exit c' \<or> r = Continue c') \<and>
    listeners c' = listeners c \<and> stopChan_closed c' = stopChan_closed c \<and> mu_free c' \<and>
    pollers c' = pollers c \<and> (\<forall>j. j \<noteq> i \<longrightarrow> elements c' j = elements c j)"
  using assms
  by (auto simp: poll_tick_def mu_RLock_def mu_RUnlock_def mu_Lock_def mu_Unlock_def mu_free_def
           Let_def split: sum.splits if_splits)

lemma poll_iteration_Return:
  assumes "poll_iteration ev i c = Return r" "mu_free c"
  shows "\<exists>c'. (r = Exit c' \<or> r = Continue c') \<and>
    listeners c' = listeners c \<and> stopChan_closed c' = stopChan_closed c \<and> mu_free c' \<and>
    pollers c' = pollers c \<and> (\<forall>j. j \<noteq> i \<longrightarrow> elements c' j = elements c j)"
proof (cases "go_select ev c")
  case None
  with assms show ?thesis by (auto simp: poll_iteration_def)
next
  case (Some sc)
  show ?thesis
  proof (cases sc)
    case Ctx_Done
    with Some assms show ?thesis by (auto simp: poll_iteration_def)
  next
    case Ticker_C
    with Some assms have "poll_tick (ev_page ev) i c = Return r"
      by (simp add: poll_iteration_def)
    from poll_tick_Return [OF this assms(2)] show ?thesis .
  qed
qed

lemma exec_call_keeps:
  assumes "exec_call x c = Return c'" "mu_free c"
  shows "mu_free c' \<and> stopChan_closed c' = stopChan_closed c"
proof (cases x)
  case (CallNavigate pg order url)
  with assms Navigate_Return [of pg order url c c'] show ?thesis by simp
next
  case (CallSetValue pg i v)
  with assms SetValue_Return [of pg i v c c'] show ?thesis by simp
next
  case (CallAddListener pg i)
  with assms AddListener_Return [of pg i c c'] show ?thesis by simp
next
  case (CallRemoveListener i)
  with assms show ?thesis by (auto simp: RemoveListener_free mu_free_def)
next
  case (PollerStep ev i)
  show ?thesis
  proof (cases "i \<in> set (pollers c)")
    case False
    with PollerStep assms show ?thesis by simp
  next
    case True
    with PollerStep assms obtain r where r: "poll_iteration ev i c = Return r"
      by (cases "poll_iteration ev i c") auto
    from poll_iteration_Return [OF r assms(2)] PollerStep assms True r show ?thesis
      by (auto simp: mu_free_def)
  qed
qed

lemma exec_call_untouched:
  assumes "exec_call x c = Return c'" "mu_free c" "untouched i c" "\<not> passes_id i x"
    "case x of CallNavigate pg order url \<Rightarrow> is_range_order order c | _ \<Rightarrow> True"
  shows "untouched i c'"
proof (cases x)
  case (CallNavigate pg order url)
  with assms have "i \<notin> set order"
    by (auto simp: is_range_order_def untouched_def)
  with CallNavigate assms Navigate_Return [of pg order url c c'] show ?thesis
    by (auto simp: untouched_def)
next
  case (CallSetValue pg j v)
  with assms SetValue_Return [of pg j v c c'] show ?thesis by (auto simp: untouched_def)
next
  case (CallAddListener pg j)
  with assms AddListener_Return [of pg j c c'] show ?thesis by (auto simp: untouched_def)
next
  case (CallRemoveListener j)
  with assms show ?thesis by (auto simp: RemoveListener_free untouched_def)
next
  case (PollerStep ev j)
  show ?thesis
  proof (cases "j \<in> set (pollers c)")
    case False
    with PollerStep assms show ?thesis by simp
  next
    case True
    with assms have ne: "i \<noteq> j" by (auto simp: untouched_def)
    from True PollerStep assms obtain r where r: "poll_iteration ev j c = Return r"
      by (cases "poll_iteration ev j c") auto
    from poll_iteration_Return [OF r assms(2)] PollerStep assms True r ne show ?thesis
      by (auto simp: untouched_def dest: notin_set_remove1)
  qed
qed

lemma run_calls_keeps:
  assumes "run_calls xs c = Return c'" "mu_free c"
  shows "mu_free c' \<and> stopChan_closed c' = stopChan_closed c"
  using assms
proof (induction xs arbitrary: c)
  case Nil
  then show ?case by simp
next
  case (Cons x xs)
  from Cons.prems obtain c1 where x: "exec_call x c = Return c1"
    and r: "run_calls xs c1 = Return c'"
    by (cases "exec_call x c") auto
  from exec_call_keeps [OF x Cons.prems(2)] Cons.IH [OF r] show ?case by simp
qed

lemma run_calls_untouched:
  assumes "run_calls xs c = Return c'" "mu_free c" "untouched i c"
    "\<forall>x \<in> set xs. \<not> passes_id i x" "range_orders_ok xs c"
  shows "untouched i c'"
  using assms
proof (induction xs arbitrary: c)
  case Nil
  then show ?case by simp
next
  case (Cons x xs)
  from Cons.prems obtain c1 where x: "exec_call x c = Return c1"
    and r: "run_calls xs c1 = Return c'"
    by (cases "exec_call x c") auto
  have f: "mu_free c1" using exec_call_keeps [OF x Cons.prems(2)] by simp
  have u: "untouched i c1"
    using exec_call_untouched [OF x Cons.prems(2,3)] Cons.prems(4,5) by simp
  from Cons.prems x have "range_orders_ok xs c1" by simp
  from Cons.IH [OF r f u _ this] Cons.prems(4) show ?case by simp
qed

lemma poll_iteration_stopChan:
  assumes "poll_iteration ev i c = Return r"
  shows "\<exists>c'. (r = Exit c' \<or> r = Continue c') \<and> stopChan_closed c' = stopChan_closed c"
  using assms
  by (auto simp: poll_iteration_def poll_tick_def mu_RLock_def mu_RUnlock_def mu_Lock_def
        mu_Unlock_def Let_def split: option.splits select_case.splits sum.splits if_splits)

lemma exec_call_stopChan:
  assumes "exec_call x c = Return c'"
  shows "stopChan_closed c' = stopChan_closed c"
proof (cases x)
  case (CallNavigate pg order url)
  with assms Navigate_Return [of pg order url c c'] show ?thesis by simp
next
  case (CallSetValue pg i v)
  with assms SetValue_Return [of pg i v c c'] show ?thesis by simp
next
  case (CallAddListener pg i)
  with assms AddListener_Return [of pg i c c'] show ?thesis by simp
next
  case (CallRemoveListener i)
  with assms RemoveListener_Return [of i c c'] show ?thesis by auto
next
  case (PollerStep ev i)
  show ?thesis
  proof (cases "i \<in> set (pollers c)")
    case False
    with PollerStep assms show ?thesis by simp
  next
    case True
    with PollerStep assms obtain r where r: "poll_iteration ev i c = Return r"
      by (cases "poll_iteration ev i c") auto
    from poll_iteration_stopChan [OF r] PollerStep assms True r show ?thesis by auto
  qed
qed

lemma run_calls_stopChan:
  assumes "run_calls xs c = Return c'"
  shows "stopChan_closed c' = stopChan_closed c"
  using assms
proof (induction xs arbitrary: c)
  case Nil
  then show ?case by simp
next
  case (Cons x xs)
  from Cons.prems obtain c1 where x: "exec_call x c = Return c1"
    and r: "run_calls xs c1 = Return c'"
    by (cases "exec_call x c") auto
  from exec_call_stopChan [OF x] Cons.IH [OF r] show ?case by simp
qed

lemma NewChromeWebView_Return:
  assumes "NewChromeWebView L opts w = Return (c, w')"
  shows "elements c = Map.empty \<and> listeners c = Map.empty \<and> pollers c = [] \<and> mu_free c \<and>
    \<not> stopChan_closed c \<and> \<not> ctx_done c"
  using assms
  by (auto simp: NewChromeWebView_def mu_free_def Let_def split: prod.splits if_splits)

lemma Destroy_Return:
  assumes "Destroy rf c = Return c'"
  shows "stopChan_closed c' \<and> ctx_done c' \<and> \<not> stopChan_closed c \<and> mu_free c' = mu_free c"
  using assms
  by (auto simp: Destroy_def Let_def slog_msg_def mu_free_def split: if_splits)

lemma Destroy_open:
  "\<not> stopChan_closed c \<Longrightarrow> \<exists>c'. Destroy rf c = Return c'"
  by (simp add: Destroy_def Let_def)

lemma Destroy_closed:
  "stopChan_closed c \<Longrightarrow> Destroy rf c = Panic CloseOfClosedChannel"
  by (simp add: Destroy_def Let_def)

text \<open>
  Claim C10. \<open>Destroy\<close> on a session made by \<open>NewChromeWebView\<close>, after any run of
  calls, returns; and once \<open>Destroy\<close> has returned, a second \<open>Destroy\<close>, after any
  further run of calls, panics at \<open>close(c.stopChan)\<close>.
\<close>

theorem Destroy_twice_panics:
  "(NewChromeWebView L opts w = Return (c0, w0) \<and> run_calls xs c0 = Return c
      \<longrightarrow> (\<exists>c1. Destroy rf c = Return c1)) \<and>
   (Destroy rf c = Return c1 \<and> run_calls ys c1 = Return c2
      \<longrightarrow> Destroy rf' c2 = Panic CloseOfClosedChannel)"
proof (intro conjI impI)
  assume a: "NewChromeWebView L opts w = Return (c0, w0) \<and> run_calls xs c0 = Return c"
  from NewChromeWebView_Return [of L opts w c0 w0] a run_calls_stopChan [of xs c0 c]
  have "\<not> stopChan_closed c" by simp
  then show "\<exists>c1. Destroy rf c = Return c1" by (rule Destroy_open)
next
  assume a: "Destroy rf c = Return c1 \<and> run_calls ys c1 = Return c2"
  from a Destroy_Return [of rf c c1] have "stopChan_closed c1" by simp
  with a run_calls_stopChan [of ys c1 c2] have "stopChan_closed c2" by simp
  then show "Destroy rf' c2 = Panic CloseOfClosedChannel" by (rule Destroy_closed)
qed

text \<open>
  Claim C4. \<open>GetValue(id)\<close> returns the empty string when the cache has no entry for
  \<open>id\<close>; the cache has none after any run from a new session in which \<open>id\<close> is never
  passed to \<open>SetValue\<close> or \<open>AddListener\<close>; and \<open>RemoveListener(id)\<close> removes \<open>id\<close>
  from the watch set and from the cache between one \<open>Lock\<close> and its \<open>Unlock\<close>, so that
  \<open>GetValue(id)\<close> right after it returns the empty string.
\<close>

theorem GetValue_empty_without_entry:
  "(mu_free c \<and> elements c elementID = None \<longrightarrow> GetValue c elementID = Return []) \<and>
   (NewChromeWebView L opts w = Return (c0, w0) \<and> run_calls xs c0 = Return c1 \<and>
    range_orders_ok xs c0 \<and> (\<forall>x \<in> set xs. \<not> passes_id elementID x)
      \<longrightarrow> GetValue c1 elementID = Return []) \<and>
   (mu_free c \<longrightarrow>
      (\<exists>c'. RemoveListener elementID c = Return c' \<and>
            c' = c\<lparr>listeners := (listeners c)(elementID := None),
                     elements := (elements c)(elementID := None)\<rparr> \<and>
            listeners c' elementID = None \<and> elements c' elementID = None \<and>
            GetValue c' elementID = Return []))"
proof (intro conjI impI)
  assume "mu_free c \<and> elements c elementID = None"
  then show "GetValue c elementID = Return []"
    by (simp add: GetValue_free map_index_def)
next
  assume a: "NewChromeWebView L opts w = Return (c0, w0) \<and> run_calls xs c0 = Return c1 \<and>
    range_orders_ok xs c0 \<and> (\<forall>x \<in> set xs. \<not> passes_id elementID x)"
  from a NewChromeWebView_Return [of L opts w c0 w0]
  have i: "mu_free c0" "untouched elementID c0" by (simp_all add: untouched_def)
  from a have r: "run_calls xs c0 = Return c1" by simp
  from run_calls_untouched [OF r i] a have "elements c1 elementID = None"
    by (simp add: untouched_def)
  moreover from run_calls_keeps [OF r i(1)] have "mu_free c1" by simp
  ultimately show "GetValue c1 elementID = Return []"
    by (simp add: GetValue_free map_index_def)
next
  assume f: "mu_free c"
  then have "mu_free (c\<lparr>listeners := (listeners c)(elementID := None),
                     elements := (elements c)(elementID := None)\<rparr>)"
    by (simp add: mu_free_def)
  with f show "\<exists>c'. RemoveListener elementID c = Return c' \<and>
            c' = c\<lparr>listeners := (listeners c)(elementID := None),
                     elements := (elements c)(elementID := None)\<rparr> \<and>
            listeners c' elementID = None \<and> elements c' elementID = None \<and>
            GetValue c' elementID = Return []"
    by (simp add: RemoveListener_free GetValue_free map_index_def)
qed



lemma poll_tick_free:
  assumes "mu_free c"
  shows "poll_tick pg i c =
    (if listeners c i = None then Return (Exit c)
     else case sample_value pg i of
            None \<Rightarrow> Return (Continue c)
          | Some str \<Rightarrow> Return (Continue (c\<lparr>elements := (elements c)(i \<mapsto> str)\<rparr>)))"
  using assms
  by (simp add: poll_tick_def mu_RLock_def mu_RUnlock_def mu_Lock_def mu_Unlock_def mu_free_def
        Let_def sample_value_def split: sum.splits)

lemma poll_tick_Exit:
  "poll_tick pg i c = Return (Exit c') \<Longrightarrow> listeners c i = None"
  by (auto simp: poll_tick_def mu_RLock_def mu_RUnlock_def mu_Lock_def mu_Unlock_def
        Let_def split: sum.splits if_splits)

lemma poll_iteration_Exit:
  assumes "poll_iteration ev i c = Return (Exit c')"
  shows "exit_reason ev i c"
proof (cases "go_select ev c")
  case None
  with assms show ?thesis by (simp add: poll_iteration_def)
next
  case (Some sc)
  with assms poll_tick_Exit [of "ev_page ev" i c c'] show ?thesis
    by (cases sc) (simp_all add: poll_iteration_def exit_reason_def)
qed

lemma poll_iteration_free:
  assumes "mu_free c"
  shows "poll_iteration ev i c =
    (case go_select ev c of
       None \<Rightarrow> Return (Continue c)
     | Some Ctx_Done \<Rightarrow> Return (Exit c)
     | Some Ticker_C \<Rightarrow>
         (if listeners c i = None then Return (Exit c)
          else case sample_value (ev_page ev) i of
                 None \<Rightarrow> Return (Continue c)
               | Some str \<Rightarrow> Return (Continue (c\<lparr>elements := (elements c)(i \<mapsto> str)\<rparr>))))"
  using assms
  by (simp add: poll_iteration_def poll_tick_free split: option.splits select_case.splits)

lemma pollElementValue_Exit:
  assumes "pollElementValue evs i c = Return (Exit c')"
  shows "\<exists>k < length evs. \<exists>ck.
           pollElementValue (take k evs) i c = Return (Continue ck) \<and>
           exit_reason (snd (evs ! k)) i (fst (evs ! k) ck)"
  using assms
proof (induction evs arbitrary: c)
  case Nil
  then show ?case by simp
next
  case (Cons e evs)
  obtain others ev where e: "e = (others, ev)" by (cases e)
  from Cons.prems e obtain r where r: "poll_iteration ev i (others c) = Return r"
    by (cases "poll_iteration ev i (others c)") auto
  show ?case
  proof (cases r)
    case (Exit c1)
    with r have "exit_reason ev i (others c)" by (simp add: poll_iteration_Exit)
    then have "pollElementValue (take 0 (e # evs)) i c = Return (Continue c) \<and>
       exit_reason (snd ((e # evs) ! 0)) i (fst ((e # evs) ! 0) c)"
      by (simp add: e)
    then show ?thesis by blast
  next
    case (Continue c1)
    with Cons.prems e r have "pollElementValue evs i c1 = Return (Exit c')" by simp
    from Cons.IH [OF this] obtain k ck where k: "k < length evs"
      and p: "pollElementValue (take k evs) i c1 = Return (Continue ck)"
      and x: "exit_reason (snd (evs ! k)) i (fst (evs ! k) ck)"
      by blast
    from p r Continue e
    have "pollElementValue (take (Suc k) (e # evs)) i c = Return (Continue ck)" by simp
    with k x have "Suc k < length (e # evs) \<and>
       pollElementValue (take (Suc k) (e # evs)) i c = Return (Continue ck) \<and>
       exit_reason (snd ((e # evs) ! Suc k)) i (fst ((e # evs) ! Suc k) ck)"
      by simp
    then show ?thesis by blast
  qed
qed

text \<open>
  Claim C3, amended. From a state in which no goroutine holds the mutex, an iteration of
  the sampling loop exits exactly when its \<open>select\<close> takes the cancellation case, or
  takes the tick and \<open>id\<close> is not in the watch set. It takes the cancellation case
  whenever the context is cancelled and no tick is pending. At a tick that is taken with
  \<open>id\<close> watched, a failed sample leaves the state as it is and the loop continues, and a
  successful sample overwrites the cache entry of \<open>id\<close>. A loop that has exited did so
  at an iteration with one of the two reasons.
\<close>

theorem poll_iteration_behaviour:
  "(mu_free c \<longrightarrow>
      ((\<exists>c'. poll_iteration ev elementID c = Return (Exit c')) \<longleftrightarrow> exit_reason ev elementID c)) \<and>
   (mu_free c \<and> ctx_done c \<and> \<not> ev_tick ev \<longrightarrow> poll_iteration ev elementID c = Return (Exit c)) \<and>
   (mu_free c \<and> go_select ev c = Some Ticker_C \<and> listeners c elementID = None
      \<longrightarrow> poll_iteration ev elementID c = Return (Exit c)) \<and>
   (mu_free c \<and> go_select ev c = Some Ticker_C \<and> listeners c elementID \<noteq> None \<and>
    sample_value (ev_page ev) elementID = None
      \<longrightarrow> poll_iteration ev elementID c = Return (Continue c)) \<and>
   (mu_free c \<and> go_select ev c = Some Ticker_C \<and> listeners c elementID \<noteq> None \<and>
    sample_value (ev_page ev) elementID = Some str
      \<longrightarrow> poll_iteration ev elementID c =
            Return (Continue (c\<lparr>elements := (elements c)(elementID \<mapsto> str)\<rparr>))) \<and>
   (pollElementValue evs elementID c = Return (Exit c1)
      \<longrightarrow> (\<exists>k < length evs. \<exists>ck.
             pollElementValue (take k evs) elementID c = Return (Continue ck) \<and>
             exit_reason (snd (evs ! k)) elementID (fst (evs ! k) ck)))"
proof (intro conjI impI)
  assume f: "mu_free c"
  show "(\<exists>c'. poll_iteration ev elementID c = Return (Exit c')) \<longleftrightarrow> exit_reason ev elementID c"
  proof
    assume "\<exists>c'. poll_iteration ev elementID c = Return (Exit c')"
    then show "exit_reason ev elementID c" by (auto dest: poll_iteration_Exit)
  next
    assume "exit_reason ev elementID c"
    then have "poll_iteration ev elementID c = Return (Exit c)"
      by (auto simp: poll_iteration_free [OF f] exit_reason_def)
    then show "\<exists>c'. poll_iteration ev elementID c = Return (Exit c')" by blast
  qed
next
  assume "mu_free c \<and> ctx_done c \<and> \<not> ev_tick ev"
  then show "poll_iteration ev elementID c = Return (Exit c)"
    by (simp add: poll_iteration_free go_select_def)
next
  assume "mu_free c \<and> go_select ev c = Some Ticker_C \<and> listeners c elementID = None"
  then show "poll_iteration ev elementID c = Return (Exit c)"
    by (simp add: poll_iteration_free)
next
  assume "mu_free c \<and> go_select ev c = Some Ticker_C \<and> listeners c elementID \<noteq> None \<and>
    sample_value (ev_page ev) elementID = None"
  then show "poll_iteration ev elementID c = Return (Continue c)"
    by (auto simp: poll_iteration_free)
next
  assume "mu_free c \<and> go_select ev c = Some Ticker_C \<and> listeners c elementID \<noteq> None \<and>
    sample_value (ev_page ev) elementID = Some str"
  then show "poll_iteration ev elementID c =
            Return (Continue (c\<lparr>elements := (elements c)(elementID \<mapsto> str)\<rparr>))"
    by (auto simp: poll_iteration_free)
next
  assume "pollElementValue evs elementID c = Return (Exit c1)"
  then show "\<exists>k < length evs. \<exists>ck.
             pollElementValue (take k evs) elementID c = Return (Continue ck) \<and>
             exit_reason (snd (evs ! k)) elementID (fst (evs ! k) ck)"
    by (rule pollElementValue_Exit)
qed

lemma GetCookie_loop_find:
  "GetCookie_loop key domain cookies = first_matching_value key domain cookies"
  by (induction cookies) (auto simp: first_matching_value_def cookie_matches_def)

text \<open>
  Claim C5. \<open>GetCookie(key, domain)\<close> returns the empty string when \<open>page.Cookies\<close>
  fails, and otherwise the value of the first cookie whose name is \<open>key\<close> and whose
  domain is \<open>domain\<close>, or \<open>domain\<close> after a dot, or is empty, or with \<open>domain\<close> empty;
  the empty string when there is none.
\<close>

theorem GetCookie_first_match:
  "fst (GetCookie pg key domain c) =
     (case pg_Cookies pg (if domain \<noteq> [] then [''https://'' @ domain] else []) of
        Inl err \<Rightarrow> []
      | Inr cookies \<Rightarrow> first_matching_value key domain cookies)"
  by (simp add: GetCookie_def GetCookie_loop_find Let_def split: sum.splits)

lemma range_listeners_Blocked:
  assumes "0 < mu_readers c"
  shows "range_listeners pg order c = Blocked \<longleftrightarrow> (\<exists>i \<in> set order. sample_value pg i \<noteq> None)"
  using assms
proof (induction order arbitrary: c)
  case Nil
  then show ?case by simp
next
  case (Cons i rest)
  show ?case
  proof (cases "sample_value pg i")
    case (Some str)
    with Cons.prems have "setupListener pg i c = Blocked"
      by (auto simp: setupListener_def sample_value_def mu_Lock_def split: sum.splits)
    with Some show ?thesis by simp
  next
    case None
    then obtain c1 where s: "setupListener pg i c = Return c1"
      by (auto simp: setupListener_def sample_value_def split: sum.splits)
    from setupListener_Return(3) [OF s] Cons.prems have "0 < mu_readers c1" by simp
    from Cons.IH [OF this] s None show ?thesis by simp
  qed
qed

lemma Navigate_Blocked:
  assumes "mu_free c"
  shows "Navigate pg order url c = Blocked \<longleftrightarrow>
    (pg_Navigate pg url = None \<and> pg_WaitLoad pg = None \<and>
     (\<exists>i \<in> set order. sample_value pg i \<noteq> None))"
proof -
  define c2 where "c2 = (slog_msg ''Navigate'' c)\<lparr>elements := Map.empty\<rparr>"
  have f: "mu_readers c = 0" "\<not> mu_writer c" using assms by (simp_all add: mu_free_def)
  have l: "mu_Lock (slog_msg ''Navigate'' c) = Return ((slog_msg ''Navigate'' c)\<lparr>mu_writer := True\<rparr>)"
    using f by (simp add: mu_Lock_def slog_msg_def)
  have u: "mu_Unlock ((slog_msg ''Navigate'' c)\<lparr>mu_writer := True, elements := Map.empty\<rparr>) = c2"
    using f by (simp add: c2_def mu_Unlock_def slog_msg_def)
  have rl: "mu_RLock c2 = Return (c2\<lparr>mu_readers := Suc 0\<rparr>)"
    using f by (simp add: mu_RLock_def c2_def slog_msg_def)
  have b: "range_listeners pg order (c2\<lparr>mu_readers := Suc 0\<rparr>) = Blocked \<longleftrightarrow>
    (\<exists>i \<in> set order. sample_value pg i \<noteq> None)"
    by (rule range_listeners_Blocked) simp
  show ?thesis
    using b
    by (cases "range_listeners pg order (c2\<lparr>mu_readers := Suc 0\<rparr>)")
       (auto simp: Navigate_def l u rl split: option.splits)
qed

text \<open>
  Claim C2 fails on the code. On a new session, \<open>AddListener("a")\<close> on a page that has
  \<open>#a\<close> and then \<open>Navigate\<close> to a page that has \<open>#a\<close>: \<open>Navigate\<close> calls
  \<open>setupListener\<close> while it holds \<open>c.mu.RLock()\<close>, and \<open>setupListener\<close> calls
  \<open>c.mu.Lock()\<close> to store the value it fetched. \<open>Navigate\<close> never returns.
\<close>

theorem Navigate_blocks_on_watched_element:
  "run_calls [CallAddListener page_with_a ''a'',
              CallNavigate page_with_a [''a''] ''https://example.com/''] fresh_session = Blocked"
  by (simp add: AddListener_def setupListener_def Navigate_def page_with_a_def fresh_session_def
        mu_Lock_def mu_Unlock_def mu_RLock_def slog_msg_def)



lemma files_wlog_msg [simp]: "files (wlog_msg m w) = files w"
  by (simp add: wlog_msg_def)










theorem SetValue_then_GetValue_witness:
  "mu_free fresh_session \<and>
   (\<exists>c'. SetValue empty_page ''a'' ''v'' fresh_session = Return c' \<and>
         GetValue c' ''a'' = Return ''v'' \<and>
         c'\<lparr>slog := slog fresh_session\<rparr> = fresh_session\<lparr>elements := (elements fresh_session)(''a'' \<mapsto> ''v'')\<rparr>)"
proof -
  have h: "mu_free fresh_session" by (simp add: mu_free_def fresh_session_def)
  from h SetValue_then_GetValue [OF h, of empty_page "''a''" "''v''"] show ?thesis
    by (rule conjI)
qed

theorem Destroy_twice_panics_witness:
  "NewChromeWebView working_launch [] empty_world = Return (fresh_session, empty_world) \<and>
   run_calls [] fresh_session = Return fresh_session \<and>
   Destroy (\<lambda>p. False) fresh_session = Return destroyed_session \<and>
   run_calls [CallSetValue empty_page ''a'' ''v''] destroyed_session = Return destroyed_after_set \<and>
   Destroy (\<lambda>p. False) destroyed_after_set = Panic CloseOfClosedChannel"
proof -
  have n: "NewChromeWebView working_launch [] empty_world = Return (fresh_session, empty_world)"
    by (simp add: NewChromeWebView_def example_defs zero_options_def)
  have r: "run_calls [] fresh_session = Return fresh_session" by simp
  have d: "Destroy (\<lambda>p. False) fresh_session = Return destroyed_session"
    by (simp add: Destroy_def Let_def example_defs)
  have s: "run_calls [CallSetValue empty_page ''a'' ''v''] destroyed_session = Return destroyed_after_set"
    by (simp add: SetValue_def mu_Lock_def mu_Unlock_def slog_msg_def example_defs)
  from Destroy_twice_panics [of working_launch "[]" empty_world fresh_session empty_world
      "[]" fresh_session "\<lambda>p. False" destroyed_session "[CallSetValue empty_page ''a'' ''v'']"
      destroyed_after_set "\<lambda>p. False"] d s
  have "Destroy (\<lambda>p. False) destroyed_after_set = Panic CloseOfClosedChannel" by blast
  with n r d s show ?thesis by blast
qed

theorem GetValue_empty_without_entry_witness:
  "mu_free fresh_session \<and> elements fresh_session ''a'' = None \<and>
   GetValue fresh_session ''a'' = Return [] \<and>
   NewChromeWebView working_launch [] empty_world = Return (fresh_session, empty_world) \<and>
   run_calls [CallAddListener page_with_a ''a'', CallRemoveListener ''b''] fresh_session
     = Return watching_a_sampled \<and>
   range_orders_ok [CallAddListener page_with_a ''a'', CallRemoveListener ''b''] fresh_session \<and>
   \<not> passes_id ''b'' (CallAddListener page_with_a ''a'') \<and>
   \<not> passes_id ''b'' (CallRemoveListener ''b'') \<and>
   GetValue watching_a_sampled ''b'' = Return [] \<and>
   mu_free watching_a_sampled \<and>
   GetValue watching_a_sampled ''a'' = Return ''x'' \<and>
   (\<exists>c'. RemoveListener ''a'' watching_a_sampled = Return c' \<and>
         c' = watching_a_sampled\<lparr>listeners := (listeners watching_a_sampled)(''a'' := None),
                                  elements := (elements watching_a_sampled)(''a'' := None)\<rparr> \<and>
         listeners c' ''a'' = None \<and> elements c' ''a'' = None \<and>
         GetValue c' ''a'' = Return [])"
proof -
  have f: "mu_free fresh_session" "elements fresh_session ''a'' = None"
    by (simp_all add: mu_free_def fresh_session_def)
  have n: "NewChromeWebView working_launch [] empty_world = Return (fresh_session, empty_world)"
    by (simp add: NewChromeWebView_def example_defs zero_options_def)
  have a: "AddListener page_with_a ''a'' fresh_session = Return watching_a_sampled"
    by (simp add: AddListener_def setupListener_def mu_Lock_def mu_Unlock_def example_defs)
  have f2: "mu_free watching_a_sampled"
    by (simp add: mu_free_def example_defs)
  have r: "run_calls [CallAddListener page_with_a ''a'', CallRemoveListener ''b''] fresh_session
     = Return watching_a_sampled"
    by (simp add: a RemoveListener_free [OF f2]) (simp add: example_defs)
  have o: "range_orders_ok [CallAddListener page_with_a ''a'', CallRemoveListener ''b''] fresh_session"
    by (simp add: a RemoveListener_free [OF f2])
  have p: "\<forall>x \<in> set [CallAddListener page_with_a ''a'', CallRemoveListener ''b'']. \<not> passes_id ''b'' x"
    by simp
  have g: "GetValue watching_a_sampled ''a'' = Return ''x''"
    by (simp add: GetValue_def mu_RLock_def map_index_def example_defs)
  note T = GetValue_empty_without_entry
  from T [of fresh_session "''a''"] f
  have 1: "GetValue fresh_session ''a'' = Return []" by blast
  from T [of _ "''b''" working_launch "[]" empty_world fresh_session empty_world
      "[CallAddListener page_with_a ''a'', CallRemoveListener ''b'']" watching_a_sampled] n r o p
  have 2: "GetValue watching_a_sampled ''b'' = Return []" by blast
  from T [of watching_a_sampled "''a''"] f2
  have 3: "\<exists>c'. RemoveListener ''a'' watching_a_sampled = Return c' \<and>
         c' = watching_a_sampled\<lparr>listeners := (listeners watching_a_sampled)(''a'' := None),
                                  elements := (elements watching_a_sampled)(''a'' := None)\<rparr> \<and>
         listeners c' ''a'' = None \<and> elements c' ''a'' = None \<and>
         GetValue c' ''a'' = Return []" by blast
  have p': "\<not> passes_id ''b'' (CallAddListener page_with_a ''a'')"
    "\<not> passes_id ''b'' (CallRemoveListener ''b'')" by simp_all
  from f 1 n r o p' 2 f2 g 3 show ?thesis by blast
qed

text \<open>
  Claim C3 as stated fails: the context is cancelled, a tick is pending and the
  \<open>select\<close> takes the tick. \<open>a\<close> is watched, and the lookup of \<open>#a\<close> fails, the page
  being on the cancelled context: the loop does not exit at this tick, it continues.
\<close>

theorem poll_tick_after_cancel_counterexample:
  "ctx_done cancelled_watching_a \<and> ev_tick tick_after_cancel \<and> mu_free cancelled_watching_a \<and>
   listeners cancelled_watching_a ''a'' = Some True \<and>
   pg_Element (ev_page tick_after_cancel) ''#a'' = Inl ContextCanceled \<and>
   poll_iteration tick_after_cancel ''a'' cancelled_watching_a =
     Return (Continue cancelled_watching_a)"
  by (simp add: poll_iteration_def go_select_def poll_tick_def mu_RLock_def mu_RUnlock_def
        mu_free_def example_defs cancelled_page_def tick_after_cancel_def)

theorem poll_iteration_behaviour_witness:
  "mu_free cancelled_watching_a \<and> exit_reason no_tick ''a'' cancelled_watching_a \<and>
   (\<exists>c'. poll_iteration no_tick ''a'' cancelled_watching_a = Return (Exit c')) \<and>
   ctx_done cancelled_watching_a \<and> \<not> ev_tick no_tick \<and>
   poll_iteration no_tick ''a'' cancelled_watching_a = Return (Exit cancelled_watching_a) \<and>
   mu_free fresh_session \<and> go_select tick_on_a fresh_session = Some Ticker_C \<and>
   listeners fresh_session ''a'' = None \<and>
   poll_iteration tick_on_a ''a'' fresh_session = Return (Exit fresh_session) \<and>
   mu_free watching_a \<and> go_select tick_on_empty watching_a = Some Ticker_C \<and>
   listeners watching_a ''a'' \<noteq> None \<and> sample_value (ev_page tick_on_empty) ''a'' = None \<and>
   poll_iteration tick_on_empty ''a'' watching_a = Return (Continue watching_a) \<and>
   go_select tick_on_a watching_a = Some Ticker_C \<and>
   sample_value (ev_page tick_on_a) ''a'' = Some ''x'' \<and>
   poll_iteration tick_on_a ''a'' watching_a =
     Return (Continue (watching_a\<lparr>elements := (elements watching_a)(''a'' \<mapsto> ''x'')\<rparr>)) \<and>
   pollElementValue [(id, tick_on_empty), (RemoveListener_effect ''a'', tick_on_a)] ''a'' watching_a
     = Return (Exit (RemoveListener_effect ''a'' watching_a)) \<and>
   (\<exists>k < length [(id, tick_on_empty), (RemoveListener_effect ''a'', tick_on_a)]. \<exists>ck.
      pollElementValue (take k [(id, tick_on_empty), (RemoveListener_effect ''a'', tick_on_a)])
        ''a'' watching_a = Return (Continue ck) \<and>
      exit_reason (snd ([(id, tick_on_empty), (RemoveListener_effect ''a'', tick_on_a)] ! k)) ''a''
        (fst ([(id, tick_on_empty), (RemoveListener_effect ''a'', tick_on_a)] ! k) ck))"
proof -
  note T = poll_iteration_behaviour
  have f1: "mu_free cancelled_watching_a" "ctx_done cancelled_watching_a" "\<not> ev_tick no_tick"
    and x1: "exit_reason no_tick ''a'' cancelled_watching_a"
    by (simp_all add: mu_free_def exit_reason_def go_select_def example_defs)
  from T [of cancelled_watching_a no_tick "''a''"] f1 x1
  have 1: "\<exists>c'. poll_iteration no_tick ''a'' cancelled_watching_a = Return (Exit c')"
    and 2: "poll_iteration no_tick ''a'' cancelled_watching_a = Return (Exit cancelled_watching_a)"
    by blast+
  have f3: "mu_free fresh_session" "go_select tick_on_a fresh_session = Some Ticker_C"
    "listeners fresh_session ''a'' = None"
    by (simp_all add: mu_free_def go_select_def example_defs)
  from T [of fresh_session tick_on_a "''a''"] f3
  have 3: "poll_iteration tick_on_a ''a'' fresh_session = Return (Exit fresh_session)" by blast
  have f4: "mu_free watching_a" "go_select tick_on_empty watching_a = Some Ticker_C"
    "listeners watching_a ''a'' \<noteq> None" "sample_value (ev_page tick_on_empty) ''a'' = None"
    by (simp_all add: mu_free_def go_select_def sample_value_def example_defs)
  from T [of watching_a tick_on_empty "''a''"] f4
  have 4: "poll_iteration tick_on_empty ''a'' watching_a = Return (Continue watching_a)" by blast
  have f5: "go_select tick_on_a watching_a = Some Ticker_C"
    "sample_value (ev_page tick_on_a) ''a'' = Some ''x''"
    by (simp_all add: go_select_def sample_value_def example_defs)
  from T [of watching_a tick_on_a "''a''" "''x''"] f4(1,3) f5
  have 5: "poll_iteration tick_on_a ''a'' watching_a =
     Return (Continue (watching_a\<lparr>elements := (elements watching_a)(''a'' \<mapsto> ''x'')\<rparr>))" by blast
  have f6: "pollElementValue [(id, tick_on_empty), (RemoveListener_effect ''a'', tick_on_a)] ''a'' watching_a
     = Return (Exit (RemoveListener_effect ''a'' watching_a))"
    by (simp add: poll_iteration_def go_select_def poll_tick_def mu_RLock_def mu_RUnlock_def
        RemoveListener_effect_def example_defs)
  from T [of watching_a _ "''a''" _ "[(id, tick_on_empty), (RemoveListener_effect ''a'', tick_on_a)]"
      "RemoveListener_effect ''a'' watching_a"] f6
  have 6: "\<exists>k < length [(id, tick_on_empty), (RemoveListener_effect ''a'', tick_on_a)]. \<exists>ck.
      pollElementValue (take k [(id, tick_on_empty), (RemoveListener_effect ''a'', tick_on_a)])
        ''a'' watching_a = Return (Continue ck) \<and>
      exit_reason (snd ([(id, tick_on_empty), (RemoveListener_effect ''a'', tick_on_a)] ! k)) ''a''
        (fst ([(id, tick_on_empty), (RemoveListener_effect ''a'', tick_on_a)] ! k) ck)" by blast
  from f1 x1 1 2 f3 3 f4 4 f5 5 f6 6 show ?thesis by blast
qed




lemma copyDir_error_iff:
  "snd (copyDir H nd src dst w) = None \<longleftrightarrow>
     \<not> isl (os_Stat H src nd) \<and> \<not> fails H (OpMkdirAll dst) \<and> \<not> isl (os_ReadDir H src nd)"
  by (auto simp: copyDir.simps os_MkdirAll_def split: sum.splits prod.splits option.splits)












lemma copyFile_wlog_msg:
  "copyFile H nd src dst (wlog_msg msg w) =
     (wlog_msg msg (fst (copyFile H nd src dst w)), snd (copyFile H nd src dst w))"
  by (simp add: copyFile_def wlog_msg_def Let_def split: option.splits dnode.splits fsnode.splits)

lemma copyFile_wlog: "wlog (fst (copyFile H nd src dst w)) = wlog w"
  by (simp add: copyFile_def Let_def split: option.splits dnode.splits fsnode.splits)

lemma ListChromeProfiles_loop_map:
  "ListChromeProfiles_loop dataDir info_cache profiles =
     profiles @ map (\<lambda>(dir, info_name).
        \<lparr>Name = info_name, Directory = dir, Path = Join dataDir dir\<rparr>) info_cache"
  by (induction dataDir info_cache profiles rule: ListChromeProfiles_loop.induct) simp_all










text \<open>
  Claim C7. \<open>CopyProfile\<close> returns an error exactly when \<open>os.Stat\<close> of the source,
  \<open>os.MkdirAll\<close> of the destination or \<open>os.ReadDir\<close> of the source fails. In the loop
  over the entries, an entry whose copy fails adds a line to the log and the loop goes on
  with the remaining entries.
\<close>

theorem CopyProfile_error_iff:
  "(snd (CopyProfile H profile destDir w) \<noteq> None \<longleftrightarrow>
      isl (os_Stat H (Path profile) (src_fs H (Path profile))) \<or>
      fails H (OpMkdirAll destDir) \<or>
      isl (os_ReadDir H (Path profile) (src_fs H (Path profile)))) \<and>
   (\<not> shouldSkipFile (fst entry) \<and> IsDir (snd entry) \<and>
    snd (copyDir H (Some (snd entry)) (Join src (fst entry)) (Join dst (fst entry)) w) \<noteq> None
      \<longrightarrow> copyDir_entries H (entry # rest) src dst w =
            copyDir_entries H rest src dst
              (wlog_msg ''Failed to copy directory''
                 (fst (copyDir H (Some (snd entry)) (Join src (fst entry)) (Join dst (fst entry)) w)))) \<and>
   (\<not> shouldSkipFile (fst entry) \<and> \<not> IsDir (snd entry) \<and>
    snd (copyFile H (Some (snd entry)) (Join src (fst entry)) (Join dst (fst entry)) w) \<noteq> None
      \<longrightarrow> copyDir_entries H (entry # rest) src dst w =
            copyDir_entries H rest src dst
              (wlog_msg ''Failed to copy file''
                 (fst (copyFile H (Some (snd entry)) (Join src (fst entry)) (Join dst (fst entry)) w))))"
proof (intro conjI impI)
  show "snd (CopyProfile H profile destDir w) \<noteq> None \<longleftrightarrow>
      isl (os_Stat H (Path profile) (src_fs H (Path profile))) \<or>
      fails H (OpMkdirAll destDir) \<or>
      isl (os_ReadDir H (Path profile) (src_fs H (Path profile)))"
    using copyDir_error_iff [of H "src_fs H (Path profile)" "Path profile" destDir w]
    unfolding CopyProfile_def by auto
next
  assume "\<not> shouldSkipFile (fst entry) \<and> IsDir (snd entry) \<and>
    snd (copyDir H (Some (snd entry)) (Join src (fst entry)) (Join dst (fst entry)) w) \<noteq> None"
  then show "copyDir_entries H (entry # rest) src dst w =
            copyDir_entries H rest src dst
              (wlog_msg ''Failed to copy directory''
                 (fst (copyDir H (Some (snd entry)) (Join src (fst entry)) (Join dst (fst entry)) w)))"
    by (cases "copyDir H (Some (snd entry)) (Join src (fst entry)) (Join dst (fst entry)) w") auto
next
  assume "\<not> shouldSkipFile (fst entry) \<and> \<not> IsDir (snd entry) \<and>
    snd (copyFile H (Some (snd entry)) (Join src (fst entry)) (Join dst (fst entry)) w) \<noteq> None"
  then show "copyDir_entries H (entry # rest) src dst w =
            copyDir_entries H rest src dst
              (wlog_msg ''Failed to copy file''
                 (fst (copyFile H (Some (snd entry)) (Join src (fst entry)) (Join dst (fst entry)) w)))"
    by (cases "copyFile H (Some (snd entry)) (Join src (fst entry)) (Join dst (fst entry)) w") auto
qed

text \<open>
  Claim C8. \<open>ListChromeProfiles\<close> returns an error exactly when \<open>os.ReadFile\<close> of
  \<open>Local State\<close> under the user-data directory fails or \<open>json.Unmarshal\<close> of its bytes
  fails. Otherwise it returns one profile for each entry of \<open>profile.info_cache\<close>, in the
  order of the \<open>range\<close>: the name of the entry, its key as directory, and the user-data
  directory joined with the key as path. No entry gives the empty list and no error.
\<close>

theorem ListChromeProfiles_result:
  "(isl (ListChromeProfiles H) \<longleftrightarrow>
      (case os_ReadFile H (Join (GetChromeUserDataDir H) ''Local State'') of
         Inl err \<Rightarrow> True
       | Inr data \<Rightarrow> unmarshal H data = None)) \<and>
   (os_ReadFile H (Join (GetChromeUserDataDir H) ''Local State'') = Inr data \<and>
    unmarshal H data = Some info_cache
      \<longrightarrow> ListChromeProfiles H =
            Inr (map (\<lambda>(dir, info_name).
                   \<lparr>Name = info_name, Directory = dir,
                    Path = Join (GetChromeUserDataDir H) dir\<rparr>) info_cache) \<and>
          (\<exists>profiles. ListChromeProfiles H = Inr profiles \<and>
                       length profiles = length info_cache)) \<and>
   (os_ReadFile H (Join (GetChromeUserDataDir H) ''Local State'') = Inr data \<and>
    unmarshal H data = Some []
      \<longrightarrow> ListChromeProfiles H = Inr [])"
  by (auto simp: ListChromeProfiles_def ListChromeProfiles_loop_map Let_def
           split: sum.splits option.splits)



lemma dst_ReadDir_fails_wlog_msg [simp]:
  "dst_ReadDir_fails H p (wlog_msg m w) = dst_ReadDir_fails H p w"
  by (simp add: dst_ReadDir_fails_def)

lemma wlog_wlog_msg [simp]: "wlog (wlog_msg m w) = wlog w @ [m]"
  by (simp add: wlog_msg_def)

text \<open>
  Claim C9. \<open>WithCopiedProfile\<close> has no error to return. When \<open>os.MkdirTemp\<close> fails it
  logs and leaves the options as they were. Otherwise it sets \<open>tmpDir\<close> and
  \<open>userDataDir\<close> to the temporary directory and \<open>profileDir\<close> to \<open>Default\<close>, whatever
  the two copies return: the files are those left by \<open>CopyProfile\<close> into
  \<open>tmp/Default\<close> followed by \<open>copyFile\<close> of \<open>Local State\<close> into \<open>tmp\<close>, and a
  failure of either adds a line to the log.
\<close>

theorem WithCopiedProfile_result:
  "(fails H OpMkdirTemp \<longrightarrow>
      WithCopiedProfile H profile (opts, w) = (opts, wlog_msg ''Failed to create temp dir'' w)) \<and>
   (\<not> fails H OpMkdirTemp \<longrightarrow>
      (let tmp = mkdir_temp H;
           w1 = wlog_msg ''Copying profile'' (w\<lparr>files := (files w)(tmp \<mapsto> DDir 448)\<rparr>);
           cp = CopyProfile H profile (Join tmp ''Default'') w1;
           ls = Join (GetChromeUserDataDir H) ''Local State'';
           cf = copyFile H (src_fs H ls) ls (Join tmp ''Local State'') (fst cp);
           r = WithCopiedProfile H profile (opts, w)
       in fst r = opts\<lparr>tmpDir := tmp, userDataDir := tmp, profileDir := ''Default''\<rparr> \<and>
          files (snd r) = files (fst cf) \<and>
          wlog (snd r) =
            wlog (fst cp) @
            (if snd cp = None then [] else [''Failed to copy profile'']) @
            [if snd cf = None then ''Copied Local State file'' else ''Failed to copy Local State''] @
            [if dst_ReadDir_fails H (Join tmp ''Default'') (fst cf)
             then ''Failed to read copied profile dir'' else ''Copied profile contents'']))"
proof (intro conjI impI)
  assume "fails H OpMkdirTemp"
  then show "WithCopiedProfile H profile (opts, w) = (opts, wlog_msg ''Failed to create temp dir'' w)"
    by (simp add: WithCopiedProfile_def os_MkdirTemp_def)
next
  assume nf: "\<not> fails H OpMkdirTemp"
  define tmp where "tmp = mkdir_temp H"
  define w1 where "w1 = wlog_msg ''Copying profile'' (w\<lparr>files := (files w)(tmp \<mapsto> DDir 448)\<rparr>)"
  define cp where "cp = CopyProfile H profile (Join tmp ''Default'') w1"
  define ls where "ls = Join (GetChromeUserDataDir H) ''Local State''"
  define cf where "cf = copyFile H (src_fs H ls) ls (Join tmp ''Local State'') (fst cp)"
  have cf_log: "copyFile H (src_fs H ls) ls (Join tmp ''Local State'') (wlog_msg m (fst cp)) =
      (wlog_msg m (fst cf), snd cf)" for m
    by (simp add: copyFile_wlog_msg cf_def)
  have cf_wlog: "wlog (fst cf) = wlog (fst cp)"
    by (simp add: cf_def copyFile_wlog)
  have cf_pair: "copyFile H (src_fs H ls) ls (Join tmp ''Local State'') (fst cp) = (fst cf, snd cf)"
    by (simp add: cf_def)
  have "fst (WithCopiedProfile H profile (opts, w)) =
          opts\<lparr>tmpDir := tmp, userDataDir := tmp, profileDir := ''Default''\<rparr> \<and>
        files (snd (WithCopiedProfile H profile (opts, w))) = files (fst cf) \<and>
        wlog (snd (WithCopiedProfile H profile (opts, w))) =
            wlog (fst cp) @
            (if snd cp = None then [] else [''Failed to copy profile'']) @
            [if snd cf = None then ''Copied Local State file'' else ''Failed to copy Local State''] @
            [if dst_ReadDir_fails H (Join tmp ''Default'') (fst cf)
             then ''Failed to read copied profile dir'' else ''Copied profile contents'']"
  proof (cases cp)
    case (Pair wc ec)
    then have c: "CopyProfile H profile (Join tmp ''Default'')
        (wlog_msg ''Copying profile'' (w\<lparr>files := (files w)(tmp \<mapsto> DDir 448)\<rparr>)) = (wc, ec)"
      by (simp add: cp_def w1_def)
    from Pair have wc: "wc = fst cp" "ec = snd cp" by simp_all
    show ?thesis
      using nf cf_log cf_pair cf_wlog
      by (cases ec; cases "snd cf")
         (simp_all add: WithCopiedProfile_def os_MkdirTemp_def Let_def c wc [symmetric]
            tmp_def [symmetric] ls_def [symmetric])
  qed
  then show "let tmp = mkdir_temp H;
           w1 = wlog_msg ''Copying profile'' (w\<lparr>files := (files w)(tmp \<mapsto> DDir 448)\<rparr>);
           cp = CopyProfile H profile (Join tmp ''Default'') w1;
           ls = Join (GetChromeUserDataDir H) ''Local State'';
           cf = copyFile H (src_fs H ls) ls (Join tmp ''Local State'') (fst cp);
           r = WithCopiedProfile H profile (opts, w)
       in fst r = opts\<lparr>tmpDir := tmp, userDataDir := tmp, profileDir := ''Default''\<rparr> \<and>
          files (snd r) = files (fst cf) \<and>
          wlog (snd r) =
            wlog (fst cp) @
            (if snd cp = None then [] else [''Failed to copy profile'']) @
            [if snd cf = None then ''Copied Local State file'' else ''Failed to copy Local State''] @
            [if dst_ReadDir_fails H (Join tmp ''Default'') (fst cf)
             then ''Failed to read copied profile dir'' else ''Copied profile contents'']"
    unfolding Let_def tmp_def w1_def cp_def ls_def cf_def .
qed




lemma skip_examples:
  "shouldSkipFile ''LOCK''" "shouldSkipFile ''SingletonLock''" "\<not> shouldSkipFile ''data.db''"
  "\<not> shouldSkipFile ''Cache''" "shouldSkipFile ''LOG.old''" "shouldSkipFile ''LOCKS''"
  by (simp_all add: shouldSkipFile_def skipFiles_def)


theorem CopyProfile_error_iff_witness:
  "snd (CopyProfile faulty_host default_profile [''dst''] empty_world) = None \<and>
   \<not> shouldSkipFile (fst sub_entry) \<and> IsDir (snd sub_entry) \<and>
   snd (copyDir faulty_host (Some (snd sub_entry)) (Join (Path default_profile) (fst sub_entry))
          (Join [''dst''] (fst sub_entry)) empty_world) \<noteq> None \<and>
   copyDir_entries faulty_host [sub_entry, db_entry] (Path default_profile) [''dst''] empty_world =
     copyDir_entries faulty_host [db_entry] (Path default_profile) [''dst'']
       (wlog_msg ''Failed to copy directory''
          (fst (copyDir faulty_host (Some (snd sub_entry)) (Join (Path default_profile) (fst sub_entry))
                  (Join [''dst''] (fst sub_entry)) empty_world))) \<and>
   \<not> shouldSkipFile (fst db_entry) \<and> \<not> IsDir (snd db_entry) \<and>
   snd (copyFile faulty_host (Some (snd db_entry)) (Join (Path default_profile) (fst db_entry))
          (Join [''dst''] (fst db_entry)) empty_world) \<noteq> None \<and>
   copyDir_entries faulty_host [db_entry] (Path default_profile) [''dst''] empty_world =
     copyDir_entries faulty_host [] (Path default_profile) [''dst'']
       (wlog_msg ''Failed to copy file''
          (fst (copyFile faulty_host (Some (snd db_entry)) (Join (Path default_profile) (fst db_entry))
                  (Join [''dst''] (fst db_entry)) empty_world))) \<and>
   wlog (fst (CopyProfile faulty_host default_profile [''dst''] empty_world)) =
     [''Failed to copy directory'', ''Failed to copy file'']"
proof -
  note T = CopyProfile_error_iff
  have top: "\<not> isl (os_Stat faulty_host (Path default_profile) (src_fs faulty_host (Path default_profile)))"
    "\<not> fails faulty_host (OpMkdirAll [''dst''])"
    "\<not> isl (os_ReadDir faulty_host (Path default_profile) (src_fs faulty_host (Path default_profile)))"
    by (simp_all add: os_Stat_def os_ReadDir_def host_defs)
  from T [of faulty_host default_profile "[''dst'']" empty_world] top
  have 1: "snd (CopyProfile faulty_host default_profile [''dst''] empty_world) = None" by blast
  have h2: "\<not> shouldSkipFile (fst sub_entry)" "IsDir (snd sub_entry)"
    "snd (copyDir faulty_host (Some (snd sub_entry)) (Join (Path default_profile) (fst sub_entry))
          (Join [''dst''] (fst sub_entry)) empty_world) \<noteq> None"
    by (simp_all add: skip_examples sub_entry_def copyDir.simps os_Stat_def os_MkdirAll_def
          os_ReadDir_def Join_def faulty_host_def plain_host_def default_profile_def chrome_dir_def)
  from T [of faulty_host _ _ empty_world sub_entry "Path default_profile" "[''dst'']" "[db_entry]"] h2
  have 2: "copyDir_entries faulty_host [sub_entry, db_entry] (Path default_profile) [''dst''] empty_world =
     copyDir_entries faulty_host [db_entry] (Path default_profile) [''dst'']
       (wlog_msg ''Failed to copy directory''
          (fst (copyDir faulty_host (Some (snd sub_entry)) (Join (Path default_profile) (fst sub_entry))
                  (Join [''dst''] (fst sub_entry)) empty_world)))" by blast
  have h3: "\<not> shouldSkipFile (fst db_entry)" "\<not> IsDir (snd db_entry)"
    "snd (copyFile faulty_host (Some (snd db_entry)) (Join (Path default_profile) (fst db_entry))
          (Join [''dst''] (fst db_entry)) empty_world) \<noteq> None"
    by (simp_all add: skip_examples db_entry_def copyFile_def Join_def faulty_host_def
          plain_host_def default_profile_def chrome_dir_def)
  from T [of faulty_host _ _ empty_world db_entry "Path default_profile" "[''dst'']" "[]"] h3
  have 3: "copyDir_entries faulty_host [db_entry] (Path default_profile) [''dst''] empty_world =
     copyDir_entries faulty_host [] (Path default_profile) [''dst'']
       (wlog_msg ''Failed to copy file''
          (fst (copyFile faulty_host (Some (snd db_entry)) (Join (Path default_profile) (fst db_entry))
                  (Join [''dst''] (fst db_entry)) empty_world)))" by blast
  have 4: "wlog (fst (CopyProfile faulty_host default_profile [''dst''] empty_world)) =
     [''Failed to copy directory'', ''Failed to copy file'']"
    by (simp add: CopyProfile_def copyDir.simps os_Stat_def os_MkdirAll_def os_ReadDir_def
          copyFile_def Join_def skip_examples host_defs empty_world_def wlog_msg_def)
  from 1 h2 2 h3 3 4 show ?thesis by blast
qed

theorem ListChromeProfiles_result_witness:
  "os_ReadFile plain_host (Join (GetChromeUserDataDir plain_host) ''Local State'') = Inr ''local state'' \<and>
   unmarshal plain_host ''local state'' = Some [(''Default'', ''Person 1'')] \<and>
   ListChromeProfiles plain_host = Inr [default_profile] \<and>
   (\<exists>profiles. ListChromeProfiles plain_host = Inr profiles \<and>
                length profiles = length [(''Default'', ''Person 1'')]) \<and>
   os_ReadFile (plain_host\<lparr>unmarshal := (\<lambda>s. Some [])\<rparr>)
     (Join (GetChromeUserDataDir (plain_host\<lparr>unmarshal := (\<lambda>s. Some [])\<rparr>)) ''Local State'')
     = Inr ''local state'' \<and>
   unmarshal (plain_host\<lparr>unmarshal := (\<lambda>s. Some [])\<rparr>) ''local state'' = Some [] \<and>
   ListChromeProfiles (plain_host\<lparr>unmarshal := (\<lambda>s. Some [])\<rparr>) = Inr [] \<and>
   isl (ListChromeProfiles faulty_host)"
proof -
  note T = ListChromeProfiles_result
  have h1: "os_ReadFile plain_host (Join (GetChromeUserDataDir plain_host) ''Local State'')
      = Inr ''local state''"
    "unmarshal plain_host ''local state'' = Some [(''Default'', ''Person 1'')]"
    by (simp_all add: os_ReadFile_def GetChromeUserDataDir_def Join_def host_defs)
  from T [of plain_host "''local state''" "[(''Default'', ''Person 1'')]"] h1
  have "ListChromeProfiles plain_host =
            Inr (map (\<lambda>(dir, info_name).
                   \<lparr>Name = info_name, Directory = dir,
                    Path = Join (GetChromeUserDataDir plain_host) dir\<rparr>) [(''Default'', ''Person 1'')])"
    and 2: "\<exists>profiles. ListChromeProfiles plain_host = Inr profiles \<and>
                length profiles = length [(''Default'', ''Person 1'')]"
    by blast+
  then have 1: "ListChromeProfiles plain_host = Inr [default_profile]"
    by (simp add: GetChromeUserDataDir_def Join_def host_defs)
  have h3: "os_ReadFile (plain_host\<lparr>unmarshal := (\<lambda>s. Some [])\<rparr>)
     (Join (GetChromeUserDataDir (plain_host\<lparr>unmarshal := (\<lambda>s. Some [])\<rparr>)) ''Local State'')
     = Inr ''local state''"
    "unmarshal (plain_host\<lparr>unmarshal := (\<lambda>s. Some [])\<rparr>) ''local state'' = Some []"
    by (simp_all add: os_ReadFile_def GetChromeUserDataDir_def Join_def host_defs)
  from T [of "plain_host\<lparr>unmarshal := (\<lambda>s. Some [])\<rparr>" "''local state''"] h3
  have 3: "ListChromeProfiles (plain_host\<lparr>unmarshal := (\<lambda>s. Some [])\<rparr>) = Inr []" by blast
  have "os_ReadFile faulty_host (Join (GetChromeUserDataDir faulty_host) ''Local State'') = Inl ENOENT"
    by (simp add: os_ReadFile_def GetChromeUserDataDir_def Join_def host_defs)
  with T [of faulty_host] have 4: "isl (ListChromeProfiles faulty_host)" by simp
  from h1 1 2 h3 3 4 show ?thesis by blast
qed

theorem WithCopiedProfile_result_witness:
  "fails faulty_host OpMkdirTemp \<and>
   WithCopiedProfile faulty_host default_profile (zero_options, empty_world) =
     (zero_options, wlog_msg ''Failed to create temp dir'' empty_world) \<and>
   \<not> fails plain_host OpMkdirTemp \<and>
   fst (WithCopiedProfile plain_host default_profile (zero_options, empty_world)) =
     zero_options\<lparr>tmpDir := [''tmp'', ''rod-wrap-profile-1''],
                   userDataDir := [''tmp'', ''rod-wrap-profile-1''],
                   profileDir := ''Default''\<rparr> \<and>
   files (snd (WithCopiedProfile plain_host default_profile (zero_options, empty_world)))
     [''tmp'', ''rod-wrap-profile-1'', ''Default'', ''data.db''] = Some (DFile 384 ''abc'') \<and>
   files (snd (WithCopiedProfile plain_host default_profile (zero_options, empty_world)))
     [''tmp'', ''rod-wrap-profile-1'', ''Local State''] = Some (DFile 384 ''local state'') \<and>
   files (snd (WithCopiedProfile plain_host default_profile (zero_options, empty_world)))
     [''tmp'', ''rod-wrap-profile-1'', ''Default'', ''LOCK''] = None \<and>
   wlog (snd (WithCopiedProfile plain_host default_profile (zero_options, empty_world))) =
     [''Copying profile'', ''Copied Local State file'', ''Copied profile contents'']"
proof -
  note T = WithCopiedProfile_result
  have h1: "fails faulty_host OpMkdirTemp" by (simp add: host_defs)
  from T [of faulty_host default_profile zero_options empty_world] h1
  have 1: "WithCopiedProfile faulty_host default_profile (zero_options, empty_world) =
     (zero_options, wlog_msg ''Failed to create temp dir'' empty_world)" by blast
  have h2: "\<not> fails plain_host OpMkdirTemp" by (simp add: host_defs)
  define cp where "cp = CopyProfile plain_host default_profile [''tmp'', ''rod-wrap-profile-1'', ''Default'']
      (wlog_msg ''Copying profile''
         (empty_world\<lparr>files := (files empty_world)([''tmp'', ''rod-wrap-profile-1''] \<mapsto> DDir 448)\<rparr>))"
  have cp: "snd cp = None" "wlog (fst cp) = [''Copying profile'']"
    "files (fst cp) [''tmp'', ''rod-wrap-profile-1'', ''Default'', ''data.db''] = Some (DFile 384 ''abc'')"
    "files (fst cp) [''tmp'', ''rod-wrap-profile-1'', ''Default''] = Some (DDir 448)"
    "files (fst cp) [''tmp'', ''rod-wrap-profile-1'', ''Default'', ''LOCK''] = None"
    "files (fst cp) [''tmp'', ''rod-wrap-profile-1'', ''Local State''] = None"
    by (simp_all add: cp_def CopyProfile_def copyDir.simps os_Stat_def os_MkdirAll_def os_ReadDir_def
          copyFile_def Join_def skip_examples host_defs empty_world_def wlog_msg_def)
  from T [of plain_host default_profile zero_options empty_world] h2
  have "let tmp = mkdir_temp plain_host;
           w1 = wlog_msg ''Copying profile''
                  (empty_world\<lparr>files := (files empty_world)(tmp \<mapsto> DDir 448)\<rparr>);
           cp = CopyProfile plain_host default_profile (Join tmp ''Default'') w1;
           ls = Join (GetChromeUserDataDir plain_host) ''Local State'';
           cf = copyFile plain_host (src_fs plain_host ls) ls (Join tmp ''Local State'') (fst cp);
           r = WithCopiedProfile plain_host default_profile (zero_options, empty_world)
       in fst r = zero_options\<lparr>tmpDir := tmp, userDataDir := tmp, profileDir := ''Default''\<rparr> \<and>
          files (snd r) = files (fst cf) \<and>
          wlog (snd r) =
            wlog (fst cp) @
            (if snd cp = None then [] else [''Failed to copy profile'']) @
            [if snd cf = None then ''Copied Local State file'' else ''Failed to copy Local State''] @
            [if dst_ReadDir_fails plain_host (Join tmp ''Default'') (fst cf)
             then ''Failed to read copied profile dir'' else ''Copied profile contents'']"
    by blast
  moreover have mt: "mkdir_temp plain_host = [''tmp'', ''rod-wrap-profile-1'']"
    by (simp add: host_defs)
  moreover have "Join (GetChromeUserDataDir plain_host) ''Local State'' = chrome_dir @ [''Local State'']"
    "src_fs plain_host (chrome_dir @ [''Local State'']) = Some (File 384 ''local state'')"
    "\<not> fails plain_host op" for op
    by (simp_all add: GetChromeUserDataDir_def Join_def host_defs)
  ultimately have 2:
    "fst (WithCopiedProfile plain_host default_profile (zero_options, empty_world)) =
       zero_options\<lparr>tmpDir := [''tmp'', ''rod-wrap-profile-1''],
                   userDataDir := [''tmp'', ''rod-wrap-profile-1''],
                   profileDir := ''Default''\<rparr> \<and>
     files (snd (WithCopiedProfile plain_host default_profile (zero_options, empty_world)))
       [''tmp'', ''rod-wrap-profile-1'', ''Default'', ''data.db''] = Some (DFile 384 ''abc'') \<and>
     files (snd (WithCopiedProfile plain_host default_profile (zero_options, empty_world)))
       [''tmp'', ''rod-wrap-profile-1'', ''Local State''] = Some (DFile 384 ''local state'') \<and>
     files (snd (WithCopiedProfile plain_host default_profile (zero_options, empty_world)))
       [''tmp'', ''rod-wrap-profile-1'', ''Default'', ''LOCK''] = None \<and>
     wlog (snd (WithCopiedProfile plain_host default_profile (zero_options, empty_world))) =
       [''Copying profile'', ''Copied Local State file'', ''Copied profile contents'']"
    using cp
    by (simp add: Let_def Join_def copyFile_def dst_ReadDir_fails_def cp_def [symmetric])
  from h1 1 h2 2 show ?thesis by blast
qed

end
